theory Spec2Isabelle
  imports
    Complex_Main
    "HOL-Library.AList"
    "HOL-Library.Sublist"
    "HOL-Library.Char_ord"
    "HOL-Library.List_Lexorder"
begin

section \<open>Values, dictionaries and files\<close>

text \<open>
  The result files are JSON documents. A loaded document is a Python value built from
  \<open>None\<close>, booleans, numbers, strings, lists and dictionaries. Numbers are idealised as
  reals: the aggregation code only copies them. A dictionary is an association list with
  the keys in insertion order; \<open>d[k] = v\<close> is \<open>AList.update k v d\<close> (an existing key
  keeps its place, a new key goes to the end) and \<open>d[k]\<close> is \<open>map_of d k\<close>, raising
  \<open>KeyError\<close> where that is \<open>None\<close>.
\<close>

datatype json =
    JNull
  | JBool bool
  | JNum real
  | JStr string
  | JArr "json list"
  | JObj "(string \<times> json) list"

type_synonym lrd = "(string \<times> json) list"

text \<open>The exceptions the modelled code can raise.\<close>

datatype error =
    JSONDecodeError
  | IndexError
  | KeyError string
  | TypeError
  | AttributeError
  | YAMLError
  | ValueError
  | OverflowError

text \<open>
  A path either names no file (\<open>None\<close>), or a file that \<open>json.load\<close> rejects
  (\<open>Malformed\<close>), or a file holding an array of result dictionaries (\<open>Doc\<close>), the
  input format of both aggregators.
\<close>

datatype result_file = Malformed | Doc "lrd list"

type_synonym filesystem = "string \<Rightarrow> result_file option"

text \<open>How the loading loop at the head of both aggregators ends.\<close>

datatype 'a outcome = Done 'a | Missing string | Raised error

text \<open>
  What a call leaves behind: the rows handed to the \<open>csv\<close> writer in order (the header
  row first), the paths named in the logged "not found" errors, and the exception that
  ended the call, if any. Every written row puts at least a line terminator into the
  file, so the file holds zero bytes exactly when \<open>out\<close> is empty.
\<close>

record run =
  out :: "json list list"
  logged :: "string list"
  status :: "error option"

text \<open>
  \<open>csv.DictWriter(f, header, extrasaction="ignore")\<close>: a row is the dictionary's
  values in header order, a missing key giving the empty string, other keys ignored.
\<close>

definition dict_to_list :: "string list \<Rightarrow> lrd \<Rightarrow> json list" where
  "dict_to_list header d =
     map (\<lambda>k. case map_of d k of None \<Rightarrow> JStr [] | Some v \<Rightarrow> v) header"

text \<open>The cell of a written row under a column name.\<close>

definition cell :: "string list \<Rightarrow> json list \<Rightarrow> string \<Rightarrow> json option" where
  "cell header row k = map_of (zip header row) k"

text \<open>
  Sequencing of steps that may raise: the first exception ends the computation.
\<close>

definition bind_error :: "error + 'a \<Rightarrow> ('a \<Rightarrow> error + 'b) \<Rightarrow> error + 'b" where
  "bind_error m f = (case m of Inl e \<Rightarrow> Inl e | Inr x \<Rightarrow> f x)"

section \<open>Learning-curve aggregation\<close>

text \<open>The loading loop of \<open>_write_learning_curve_file\<close>.\<close>

fun load_curve_results :: "filesystem \<Rightarrow> string list \<Rightarrow> lrd list \<Rightarrow> lrd list outcome" where
  "load_curve_results fs [] acc = Done acc"
| "load_curve_results fs (p # ps) acc =
     (case fs p of
        None \<Rightarrow> Missing p
      | Some Malformed \<Rightarrow> Raised JSONDecodeError
      | Some (Doc obj) \<Rightarrow> load_curve_results fs ps (acc @ obj))"

definition curve_header :: "string list" where
  "curve_header =
     [''featureset_name'', ''learner_name'', ''metric'', ''train_set_name'',
      ''training_set_size'', ''train_score_mean'', ''test_score_mean'', ''fit_time_mean'',
      ''train_score_std'', ''test_score_std'', ''fit_time_std'',
      ''scikit_learn_version'', ''version'']"

text \<open>\<open>lrd[k]\<close>.\<close>

definition getitem :: "lrd \<Rightarrow> string \<Rightarrow> error + json" where
  "getitem d k = (case map_of d k of None \<Rightarrow> Inl (KeyError k) | Some v \<Rightarrow> Inr v)"

text \<open>
  What \<open>zip\<close> iterates over: the elements of a list, the characters of a string, the
  keys of a dictionary; anything else is not iterable.
\<close>

fun py_iter :: "json \<Rightarrow> error + json list" where
  "py_iter (JArr xs) = Inr xs"
| "py_iter (JStr s) = Inr (map (\<lambda>c. JStr [c]) s)"
| "py_iter (JObj kvs) = Inr (map (\<lambda>kv. JStr (fst kv)) kvs)"
| "py_iter _ = Inl TypeError"

type_synonym point = "json \<times> json \<times> json \<times> json \<times> json \<times> json \<times> json"

text \<open>\<open>zip\<close> of seven sequences: it stops with the shortest.\<close>

definition zip7 ::
  "json list \<Rightarrow> json list \<Rightarrow> json list \<Rightarrow> json list \<Rightarrow> json list \<Rightarrow> json list \<Rightarrow> json list
     \<Rightarrow> point list" where
  "zip7 a b c d e f g = zip a (zip b (zip c (zip d (zip e (zip f g)))))"

text \<open>The seven assignments of the loop body.\<close>

fun set_point :: "lrd \<Rightarrow> point \<Rightarrow> lrd" where
  "set_point d (sz, train_score_mean, test_score_mean, fit_time_mean,
                train_score_std, test_score_std, fit_time_std) =
     AList.update ''fit_time_std'' fit_time_std
       (AList.update ''test_score_std'' test_score_std
         (AList.update ''train_score_std'' train_score_std
           (AList.update ''fit_time_mean'' fit_time_mean
             (AList.update ''test_score_mean'' test_score_mean
               (AList.update ''train_score_mean'' train_score_mean
                 (AList.update ''training_set_size'' sz d))))))"

text \<open>The inner loop: the dictionary is updated in place and written once per point.\<close>

fun write_points :: "lrd \<Rightarrow> point list \<Rightarrow> json list list" where
  "write_points d [] = []"
| "write_points d (pt # pts) =
     (let d' = set_point d pt in dict_to_list curve_header d' # write_points d' pts)"

text \<open>
  The body of the loop over the records: seven lookups, the rename of
  \<open>grid_objective\<close>, then the \<open>zip\<close>, whose construction asks each argument for an
  iterator in turn. Nothing in the inner loop can raise, so a record gives either all of its
  rows or an exception and none.
\<close>

definition flatten_record :: "lrd \<Rightarrow> error + json list list" where
  "flatten_record d =
     bind_error (getitem d ''computed_curve_train_sizes'') (\<lambda>training_set_sizes.
     bind_error (getitem d ''learning_curve_train_scores_means'') (\<lambda>train_scores_means_by_size.
     bind_error (getitem d ''learning_curve_test_scores_means'') (\<lambda>test_scores_means_by_size.
     bind_error (getitem d ''learning_curve_fit_times_means'') (\<lambda>fit_times_means_by_size.
     bind_error (getitem d ''learning_curve_train_scores_stds'') (\<lambda>train_scores_stds_by_size.
     bind_error (getitem d ''learning_curve_test_scores_stds'') (\<lambda>test_scores_stds_by_size.
     bind_error (getitem d ''learning_curve_fit_times_stds'') (\<lambda>fit_times_stds_by_size.
     bind_error (getitem d ''grid_objective'') (\<lambda>grid_objective.
     bind_error (py_iter training_set_sizes) (\<lambda>a.
     bind_error (py_iter train_scores_means_by_size) (\<lambda>b.
     bind_error (py_iter test_scores_means_by_size) (\<lambda>c.
     bind_error (py_iter fit_times_means_by_size) (\<lambda>f.
     bind_error (py_iter train_scores_stds_by_size) (\<lambda>g.
     bind_error (py_iter test_scores_stds_by_size) (\<lambda>h.
     bind_error (py_iter fit_times_stds_by_size) (\<lambda>i.
       Inr (write_points (AList.update ''metric'' grid_objective d)
              (zip7 a b c f g h i)))))))))))))))))"

text \<open>The loop over the records: rows are written until a record raises.\<close>

fun write_curve_rows :: "lrd list \<Rightarrow> json list list \<times> error option" where
  "write_curve_rows [] = ([], None)"
| "write_curve_rows (d # ds) =
     (case flatten_record d of
        Inl e \<Rightarrow> ([], Some e)
      | Inr rows \<Rightarrow> (case write_curve_rows ds of (rest, st) \<Rightarrow> (rows @ rest, st)))"

definition write_learning_curve_file :: "filesystem \<Rightarrow> string list \<Rightarrow> run" where
  "write_learning_curve_file fs result_json_paths =
     (case load_curve_results fs result_json_paths [] of
        Missing p \<Rightarrow> \<lparr>out = [], logged = [p], status = None\<rparr>
      | Raised e \<Rightarrow> \<lparr>out = [], logged = [], status = Some e\<rparr>
      | Done learner_result_dicts \<Rightarrow>
          (case write_curve_rows learner_result_dicts of
             (rows, st) \<Rightarrow> \<lparr>out = map JStr curve_header # rows, logged = [], status = st\<rparr>))"

section \<open>Summary aggregation\<close>

text \<open>
  Two library calls of \<open>_write_summary_file\<close> are parameters of the model:
  \<open>yaml_load\<close>, which decodes the \<open>featureset\<close> field into the feature names that
  \<open>set.update\<close> and \<open>set.difference\<close> then iterate over (or raises), and
  \<open>json_dumps\<close>, which serialises a list of feature names. Feature names are strings;
  \<open>sorted\<close> on strings is the lexicographic order on characters.
\<close>

type_synonym decoder = "json \<Rightarrow> error + string list"

type_synonym encoder = "string list \<Rightarrow> string"

type_synonym feature_sets = "string \<Rightarrow> string set"

definition marker :: string where
  "marker = ''_minus_''"

text \<open>\<open>m in s\<close> on strings.\<close>

fun contains :: "string \<Rightarrow> string \<Rightarrow> bool" where
  "contains m [] = (m = [])"
| "contains m (c # cs) = (prefix m (c # cs) \<or> contains m cs)"

text \<open>\<open>s.split(m, 1)[0]\<close> for a non-empty separator: what precedes its first occurrence.\<close>

fun split_first :: "string \<Rightarrow> string \<Rightarrow> string" where
  "split_first m [] = []"
| "split_first m (c # cs) = (if prefix m (c # cs) then [] else c # split_first m cs)"

text \<open>
  \<open>"_minus_" in featureset_name\<close>: a substring test on a string, a membership test on a
  list or on the keys of a dictionary, a \<open>TypeError\<close> on anything else.
\<close>

fun marker_in :: "json \<Rightarrow> error + bool" where
  "marker_in (JStr s) = Inr (contains marker s)"
| "marker_in (JArr xs) = Inr (JStr marker \<in> set xs)"
| "marker_in (JObj kvs) = Inr (marker \<in> set (map fst kvs))"
| "marker_in _ = Inl TypeError"

text \<open>\<open>featureset_name.split("_minus_", 1)[0]\<close>: only strings have \<open>split\<close>.\<close>

fun parent_set_of :: "json \<Rightarrow> error + string" where
  "parent_set_of (JStr s) = Inr (split_first marker s)"
| "parent_set_of _ = Inl AttributeError"

text \<open>
  What the loading loop does with one document before extending the record list: it
  reads the first record only.
\<close>

definition note_features :: "decoder \<Rightarrow> int \<Rightarrow> lrd list \<Rightarrow> feature_sets \<Rightarrow> error + feature_sets" where
  "note_features yaml_load ablation obj all_features =
     (case obj of
        [] \<Rightarrow> Inl IndexError
      | first # _ \<Rightarrow>
          bind_error (getitem first ''featureset_name'') (\<lambda>featureset_name.
            if ablation = 0 then Inr all_features
            else
              bind_error (marker_in featureset_name) (\<lambda>found.
                if \<not> found then Inr all_features
                else
                  bind_error (parent_set_of featureset_name) (\<lambda>parent_set.
                  bind_error (getitem first ''featureset'') (\<lambda>featureset.
                  bind_error (yaml_load featureset) (\<lambda>features.
                    Inr (all_features
                           (parent_set := all_features parent_set \<union> set features))))))))"

fun load_summary_results ::
  "decoder \<Rightarrow> filesystem \<Rightarrow> int \<Rightarrow> string list \<Rightarrow> lrd list \<times> feature_sets
     \<Rightarrow> (lrd list \<times> feature_sets) outcome" where
  "load_summary_results yaml_load fs ablation [] st = Done st"
| "load_summary_results yaml_load fs ablation (p # ps) (acc, all_features) =
     (case fs p of
        None \<Rightarrow> Missing p
      | Some Malformed \<Rightarrow> Raised JSONDecodeError
      | Some (Doc obj) \<Rightarrow>
          (case note_features yaml_load ablation obj all_features of
             Inl e \<Rightarrow> Raised e
           | Inr all_features' \<Rightarrow>
               load_summary_results yaml_load fs ablation ps (acc @ obj, all_features')))"

text \<open>The header, built from the keys of the first loaded record.\<close>

definition summary_header :: "int \<Rightarrow> lrd \<Rightarrow> string list" where
  "summary_header ablation first =
     sorted_list_of_set
       ((set (map fst first) - {''result_table'', ''descriptive''})
          \<union> (if ablation \<noteq> 0 then {''ablated_features''} else {}))"

text \<open>The body of the second loop up to the write: the record with its derived field.\<close>

definition ablate :: "decoder \<Rightarrow> encoder \<Rightarrow> int \<Rightarrow> feature_sets \<Rightarrow> lrd \<Rightarrow> error + lrd" where
  "ablate yaml_load json_dumps ablation all_features d =
     bind_error (getitem d ''featureset_name'') (\<lambda>featureset_name.
       if ablation = 0 then Inr d
       else
         bind_error (parent_set_of featureset_name) (\<lambda>parent_set.
         bind_error (getitem d ''featureset'') (\<lambda>featureset.
         bind_error (yaml_load featureset) (\<lambda>features.
           let ablated_features = all_features parent_set - set features
           in Inr (AList.update ''ablated_features''
                     (if ablated_features = {} then JStr []
                      else JStr (json_dumps (sorted_list_of_set ablated_features))) d)))))"

fun write_summary_rows ::
  "decoder \<Rightarrow> encoder \<Rightarrow> int \<Rightarrow> feature_sets \<Rightarrow> string list \<Rightarrow> lrd list
     \<Rightarrow> json list list \<times> error option" where
  "write_summary_rows yaml_load json_dumps ablation all_features header [] = ([], None)"
| "write_summary_rows yaml_load json_dumps ablation all_features header (d # ds) =
     (case ablate yaml_load json_dumps ablation all_features d of
        Inl e \<Rightarrow> ([], Some e)
      | Inr d' \<Rightarrow>
          (case write_summary_rows yaml_load json_dumps ablation all_features header ds of
             (rest, st) \<Rightarrow> (dict_to_list header d' # rest, st)))"

definition write_summary_file ::
  "decoder \<Rightarrow> encoder \<Rightarrow> filesystem \<Rightarrow> string list \<Rightarrow> int \<Rightarrow> run" where
  "write_summary_file yaml_load json_dumps fs result_json_paths ablation =
     (case load_summary_results yaml_load fs ablation result_json_paths ([], \<lambda>_. {}) of
        Missing p \<Rightarrow> \<lparr>out = [], logged = [p], status = None\<rparr>
      | Raised e \<Rightarrow> \<lparr>out = [], logged = [], status = Some e\<rparr>
      | Done (learner_result_dicts, all_features) \<Rightarrow>
          (case learner_result_dicts of
             [] \<Rightarrow> \<lparr>out = [], logged = [], status = Some IndexError\<rparr>
           | first # _ \<Rightarrow>
               (let header = summary_header ablation first in
                case write_summary_rows yaml_load json_dumps ablation all_features header
                       learner_result_dicts of
                  (rows, st) \<Rightarrow> \<lparr>out = map JStr header # rows, logged = [], status = st\<rparr>)))"

text \<open>The feature union the loading loop leaves for a parent (empty when it does not finish).\<close>

definition ablation_feature_set ::
  "decoder \<Rightarrow> filesystem \<Rightarrow> int \<Rightarrow> string list \<Rightarrow> string \<Rightarrow> string set" where
  "ablation_feature_set yaml_load fs ablation result_json_paths parent =
     (case load_summary_results yaml_load fs ablation result_json_paths ([], \<lambda>_. {}) of
        Done (learner_result_dicts, all_features) \<Rightarrow> all_features parent
      | _ \<Rightarrow> {})"

section \<open>Reshaping the learning-curve table\<close>

text \<open>
  A data frame is its column names and its rows, each row holding one cell per column.
  Cells read from the TSV file are strings or numbers.
\<close>

datatype cellval = CStr string | CNum real

record frame =
  columns :: "string list"
  frame_rows :: "cellval list list"

definition well_formed :: "frame \<Rightarrow> bool" where
  "well_formed df \<longleftrightarrow> distinct (columns df) \<and> (\<forall>r \<in> set (frame_rows df). length r = length (columns df))"

text \<open>The cell of row \<open>i\<close> under column \<open>c\<close>.\<close>

definition frame_cell :: "frame \<Rightarrow> nat \<Rightarrow> string \<Rightarrow> cellval option" where
  "frame_cell df i c = map_of (zip (columns df) (frame_rows df ! i)) c"

definition score_columns :: "string list \<Rightarrow> string list" where
  "score_columns cs =
     [column \<leftarrow> cs.
        column \<notin> set [''train_set_name'', ''fit_time_mean'', ''fit_time_std'',
                       ''scikit_learn_version'', ''version'']]"

definition time_columns :: "string list \<Rightarrow> string list" where
  "time_columns cs =
     [column \<leftarrow> cs.
        column \<notin> set [''train_set_name'', ''train_score_mean'', ''train_score_std'',
                       ''test_score_mean'', ''test_score_std'',
                       ''scikit_learn_version'', ''version'']]"

text \<open>
  \<open>df[cols]\<close>: the named columns in the order asked for; an unknown name raises. In a
  well-formed frame every row has a cell under every column, so the lookup of a known
  column in a row always finds one.
\<close>

definition take_columns :: "string list \<Rightarrow> frame \<Rightarrow> error + frame" where
  "take_columns cols df =
     (case [c \<leftarrow> cols. c \<notin> set (columns df)] of
        c # _ \<Rightarrow> Inl (KeyError c)
      | [] \<Rightarrow>
          Inr \<lparr>columns = cols,
               frame_rows = map (\<lambda>r. map (\<lambda>c. the (map_of (zip (columns df) r) c)) cols) (frame_rows df)\<rparr>)"

text \<open>
  \<open>pd.melt(df, id_vars=ids)\<close>: the value columns are the remaining columns in frame
  order; for each of them in turn, every row of the frame gives one long row holding its
  identifier cells, the name of the value column and the cell under it.
\<close>

definition melt :: "string list \<Rightarrow> frame \<Rightarrow> error + frame" where
  "melt id_vars df =
     (case [c \<leftarrow> id_vars. c \<notin> set (columns df)] of
        c # _ \<Rightarrow> Inl (KeyError c)
      | [] \<Rightarrow>
          if ''value'' \<in> set (columns df) then Inl ValueError
          else
            Inr \<lparr>columns = id_vars @ [''variable'', ''value''],
                 frame_rows =
                   concat
                     (map (\<lambda>v. map (\<lambda>r. map (\<lambda>c. the (map_of (zip (columns df) r) c)) id_vars
                                         @ [CStr v, the (map_of (zip (columns df) r) v)])
                                  (frame_rows df))
                        [c \<leftarrow> columns df. c \<notin> set id_vars])\<rparr>)"

definition df_score :: "frame \<Rightarrow> error + frame" where
  "df_score df = take_columns (score_columns (columns df)) df"

definition df_time :: "frame \<Rightarrow> error + frame" where
  "df_time df = take_columns (time_columns (columns df)) df"

definition df_score_melted :: "frame \<Rightarrow> error + frame" where
  "df_score_melted df =
     bind_error (df_score df) (\<lambda>sc.
       melt [c \<leftarrow> columns sc. c \<notin> set [''train_score_mean'', ''test_score_mean'']] sc)"

section \<open>Axis ranges\<close>

text \<open>
  The scores are IEEE 754 binary64 numbers, the \<open>float\<close> of Python and the
  \<open>float64\<close> of numpy: a finite number, one of the two infinities, or not-a-number.
  A finite number is given by its value; the two zeros are not told apart, as no
  comparison of the code tells them apart.
\<close>

datatype float64 = Finite real | PInf | NInf | NaN

text \<open>The number of binary digits of a positive integer.\<close>

function bit_length :: "int \<Rightarrow> int" where
  "bit_length n = (if n \<le> 0 then 0 else 1 + bit_length (n div 2))"
  by pat_completeness auto
termination
  by (relation "measure nat") auto

declare bit_length.simps [simp del]

text \<open>The binary exponent of a non-zero real: the integer part of its logarithm to base 2.\<close>

definition exponent :: "real \<Rightarrow> int" where
  "exponent x =
     (if 1 \<le> \<bar>x\<bar> then bit_length \<lfloor>\<bar>x\<bar>\<rfloor> - 1
      else - bit_length (\<lceil>1 / \<bar>x\<bar>\<rceil> - 1))"

text \<open>Rounding to the nearest integer, a tie going to the even one.\<close>

definition round_half_even :: "real \<Rightarrow> int" where
  "round_half_even q =
     (let f = \<lfloor>q\<rfloor>; d = q - of_int f
      in if d < 1 / 2 then f else if 1 / 2 < d then f + 1 else if even f then f else f + 1)"

text \<open>
  The binary64 number nearest to a real (round to nearest, ties to even): 53 significant
  binary digits, the last digit weighing at least \<open>2 powi - 1074\<close>, and an infinity once
  the rounded magnitude reaches \<open>2 ^ 1024\<close>. The result of every arithmetic operation on
  finite numbers, of reading a decimal literal and of converting an integer is the exact
  result rounded so.
\<close>

definition to_double :: "real \<Rightarrow> float64" where
  "to_double x =
     (if x = 0 then Finite 0
      else
        let e = max (exponent x - 52) (- 1074);
            y = of_int (round_half_even (\<bar>x\<bar> / 2 powi e)) * 2 powi e
        in if 2 ^ 1024 \<le> y then (if x < 0 then NInf else PInf)
           else Finite (if x < 0 then - y else y))"

fun fneg :: "float64 \<Rightarrow> float64" where
  "fneg (Finite x) = Finite (- x)"
| "fneg PInf = NInf"
| "fneg NInf = PInf"
| "fneg NaN = NaN"

text \<open>\<open>a + b\<close> and \<open>a - b\<close> on floats.\<close>

fun fadd :: "float64 \<Rightarrow> float64 \<Rightarrow> float64" where
  "fadd (Finite x) (Finite y) = to_double (x + y)"
| "fadd NaN b = NaN"
| "fadd a NaN = NaN"
| "fadd PInf NInf = NaN"
| "fadd NInf PInf = NaN"
| "fadd PInf b = PInf"
| "fadd a PInf = PInf"
| "fadd NInf b = NInf"
| "fadd a NInf = NInf"

definition fsub :: "float64 \<Rightarrow> float64 \<Rightarrow> float64" where
  "fsub a b = fadd a (fneg b)"

text \<open>\<open>a < b\<close> on floats: false whenever one of them is not-a-number.\<close>

fun flt :: "float64 \<Rightarrow> float64 \<Rightarrow> bool" where
  "flt NaN b = False"
| "flt a NaN = False"
| "flt (Finite x) (Finite y) = (x < y)"
| "flt NInf NInf = False"
| "flt NInf b = True"
| "flt a NInf = False"
| "flt PInf b = False"
| "flt a PInf = True"

text \<open>
  \<open>np.min\<close> and \<open>np.max\<close>: they raise \<open>ValueError\<close> on an empty array and give
  not-a-number when the array holds one.
\<close>

fun least :: "float64 \<Rightarrow> float64 list \<Rightarrow> float64" where
  "least m [] = m"
| "least m (x # xs) = least (if flt x m then x else m) xs"

fun greatest :: "float64 \<Rightarrow> float64 list \<Rightarrow> float64" where
  "greatest m [] = m"
| "greatest m (x # xs) = greatest (if flt m x then x else m) xs"

definition np_min :: "float64 list \<Rightarrow> error + float64" where
  "np_min xs =
     (case xs of
        [] \<Rightarrow> Inl ValueError
      | x # rest \<Rightarrow> Inr (if NaN \<in> set xs then NaN else least x rest))"

definition np_max :: "float64 list \<Rightarrow> error + float64" where
  "np_max xs =
     (case xs of
        [] \<Rightarrow> Inl ValueError
      | x # rest \<Rightarrow> Inr (if NaN \<in> set xs then NaN else greatest x rest))"

text \<open>
  \<open>math.floor\<close> and \<open>math.ceil\<close> give an integer; they raise \<open>OverflowError\<close> on an
  infinity and \<open>ValueError\<close> on not-a-number.
\<close>

fun py_floor :: "float64 \<Rightarrow> error + int" where
  "py_floor (Finite x) = Inr \<lfloor>x\<rfloor>"
| "py_floor NaN = Inl ValueError"
| "py_floor a = Inl OverflowError"

fun py_ceil :: "float64 \<Rightarrow> error + int" where
  "py_ceil (Finite x) = Inr \<lceil>x\<rceil>"
| "py_ceil NaN = Inl ValueError"
| "py_ceil a = Inl OverflowError"

text \<open>
  An integer operand of a float operation is converted to a float first; the conversion
  raises \<open>OverflowError\<close> when the integer is too large.
\<close>

definition int_to_float :: "int \<Rightarrow> error + float64" where
  "int_to_float n =
     (case to_double (of_int n) of Finite y \<Rightarrow> Inr (Finite y) | a \<Rightarrow> Inl OverflowError)"

text \<open>
  The built-in \<open>max(a, b)\<close> and \<open>min(a, b)\<close>: the second argument is taken only when
  it is greater, respectively smaller, than the first.
\<close>

definition pymax :: "float64 \<Rightarrow> float64 \<Rightarrow> float64" where
  "pymax a b = (if flt a b then b else a)"

definition pymin :: "float64 \<Rightarrow> float64 \<Rightarrow> float64" where
  "pymin a b = (if flt b a then b else a)"

text \<open>
  The long-form score table as the range computation reads it: one observation per row
  with the five columns it uses.
\<close>

record observation =
  variable :: string
  metric :: string
  val :: float64
  train_score_std :: float64
  test_score_std :: float64

definition df_train :: "observation list \<Rightarrow> string \<Rightarrow> observation list" where
  "df_train df m = [r \<leftarrow> df. variable r = ''train_score_mean'' \<and> metric r = m]"

definition df_test :: "observation list \<Rightarrow> string \<Rightarrow> observation list" where
  "df_test df m = [r \<leftarrow> df. variable r = ''test_score_mean'' \<and> metric r = m]"

definition lower_values :: "observation list \<Rightarrow> string \<Rightarrow> float64 list" where
  "lower_values df m =
     map (\<lambda>r. fsub (val r) (train_score_std r)) (df_train df m)
       @ map (\<lambda>r. fsub (val r) (test_score_std r)) (df_test df m)"

definition upper_values :: "observation list \<Rightarrow> string \<Rightarrow> float64 list" where
  "upper_values df m =
     map (\<lambda>r. fadd (val r) (train_score_std r)) (df_train df m)
       @ map (\<lambda>r. fadd (val r) (test_score_std r)) (df_test df m)"

definition lower_limit :: "float64 \<Rightarrow> error + float64" where
  "lower_limit min_score =
     (if flt min_score (Finite 0)
      then bind_error (py_floor min_score) (\<lambda>n.
           bind_error (int_to_float n) (\<lambda>floored.
             Inr (pymax (fsub min_score (to_double 0.1)) (fsub floored (to_double 0.05)))))
      else Inr (Finite 0))"

definition upper_limit :: "float64 \<Rightarrow> error + float64" where
  "upper_limit max_score =
     (if flt (Finite 0) max_score
      then bind_error (py_ceil max_score) (\<lambda>n.
           bind_error (int_to_float n) (\<lambda>ceiled.
             Inr (pymin (fadd max_score (to_double 0.1)) (fadd ceiled (to_double 0.05)))))
      else Inr (Finite 0))"

text \<open>The body of the loop over the metrics.\<close>

definition ylimits_of_metric :: "observation list \<Rightarrow> string \<Rightarrow> error + float64 \<times> float64" where
  "ylimits_of_metric df m =
     bind_error (np_min (lower_values df m)) (\<lambda>min_score.
     bind_error (np_max (upper_values df m)) (\<lambda>max_score.
     bind_error (lower_limit min_score) (\<lambda>lower.
     bind_error (upper_limit max_score) (\<lambda>upper.
       Inr (lower, upper)))))"

fun ylimits_loop ::
  "observation list \<Rightarrow> string list \<Rightarrow> (string \<rightharpoonup> float64 \<times> float64)
     \<Rightarrow> error + (string \<rightharpoonup> float64 \<times> float64)" where
  "ylimits_loop df [] ylimits = Inr ylimits"
| "ylimits_loop df (m # ms) ylimits =
     bind_error (ylimits_of_metric df m) (\<lambda>lim. ylimits_loop df ms (ylimits(m \<mapsto> lim)))"

definition compute_ylimits_for_featureset ::
  "observation list \<Rightarrow> string list \<Rightarrow> error + (string \<rightharpoonup> float64 \<times> float64)" where
  "compute_ylimits_for_featureset df metrics = ylimits_loop df metrics Map.empty"

section \<open>Derived notions and example inputs\<close>

text \<open>The rows one record contributes to the learning-curve table (none when it raises).\<close>

definition record_rows :: "lrd \<Rightarrow> json list list" where
  "record_rows d = (case flatten_record d of Inl e \<Rightarrow> [] | Inr rs \<Rightarrow> rs)"

text \<open>A learning-curve record with two training-set sizes, held by the only existing file.\<close>

definition example_curve_record :: lrd where
  "example_curve_record =
     [(''featureset_name'', JStr ''A''), (''learner_name'', JStr ''SVC''),
      (''grid_objective'', JStr ''accuracy''),
      (''computed_curve_train_sizes'', JArr [JNum 10, JNum 20]),
      (''learning_curve_train_scores_means'', JArr [JNum 0.5, JNum 0.6]),
      (''learning_curve_test_scores_means'', JArr [JNum 0.4, JNum 0.5]),
      (''learning_curve_fit_times_means'', JArr [JNum 0.1, JNum 0.2]),
      (''learning_curve_train_scores_stds'', JArr [JNum 0.05, JNum 0.05]),
      (''learning_curve_test_scores_stds'', JArr [JNum 0.05, JNum 0.05]),
      (''learning_curve_fit_times_stds'', JArr [JNum 0.01, JNum 0.01])]"

definition example_curve_fs :: filesystem where
  "example_curve_fs = (\<lambda>p. if p = ''a.json'' then Some (Doc [example_curve_record]) else None)"

text \<open>The same record with one training score mean missing: a ragged record.\<close>

definition ragged_curve_record :: lrd where
  "ragged_curve_record =
     [(''featureset_name'', JStr ''A''), (''learner_name'', JStr ''SVC''),
      (''grid_objective'', JStr ''accuracy''),
      (''computed_curve_train_sizes'', JArr [JNum 10, JNum 20]),
      (''learning_curve_train_scores_means'', JArr [JNum 0.5]),
      (''learning_curve_test_scores_means'', JArr [JNum 0.4, JNum 0.5]),
      (''learning_curve_fit_times_means'', JArr [JNum 0.1, JNum 0.2]),
      (''learning_curve_train_scores_stds'', JArr [JNum 0.05, JNum 0.05]),
      (''learning_curve_test_scores_stds'', JArr [JNum 0.05, JNum 0.05]),
      (''learning_curve_fit_times_stds'', JArr [JNum 0.01, JNum 0.01])]"

definition ragged_curve_fs :: filesystem where
  "ragged_curve_fs = (\<lambda>p. if p = ''r.json'' then Some (Doc [ragged_curve_record]) else None)"

text \<open>
  Instances of the two library parameters for the examples. On a flow sequence of plain
  names such as \<open>[f1, f2]\<close> or \<open>["f1", "f2"]\<close> the decoder returns the names, as
  \<open>yaml.load\<close> does; the encoder writes them as \<open>json.dumps\<close> writes plain names.
\<close>

fun names_in :: "string \<Rightarrow> string \<Rightarrow> string list" where
  "names_in cur [] = (if cur = [] then [] else [rev cur])"
| "names_in cur (c # cs) =
     (if c \<in> set [CHR ''['', CHR '']'', CHR '','', CHR '' '', CHR 0x22]
      then (if cur = [] then names_in [] cs else rev cur # names_in [] cs)
      else names_in (c # cur) cs)"

fun flow_names :: decoder where
  "flow_names (JStr s) = Inr (names_in [] s)"
| "flow_names _ = Inl YAMLError"

fun join_names :: "string list \<Rightarrow> string" where
  "join_names [] = []"
| "join_names [x] = CHR 0x22 # x @ [CHR 0x22]"
| "join_names (x # y # ys) = CHR 0x22 # x @ [CHR 0x22] @ '', '' @ join_names (y # ys)"

definition dumps_names :: encoder where
  "dumps_names xs = ''['' @ join_names xs @ '']''"

text \<open>A file system whose only file holds an empty array.\<close>

definition empty_doc_fs :: filesystem where
  "empty_doc_fs = (\<lambda>p. if p = ''a.json'' then Some (Doc []) else None)"

text \<open>
  The summary example: featureset \<open>A\<close> with features \<open>f1, f2\<close> and its two ablation
  children \<open>A_minus_f1\<close> and \<open>A_minus_f2\<close>, one file each.
\<close>

definition parent_record :: lrd where
  "parent_record =
     [(''featureset_name'', JStr ''A''), (''featureset'', JStr ''[f1, f2]''),
      (''result_table'', JStr ''t''), (''score'', JNum 0.5)]"

definition child_record :: lrd where
  "child_record =
     [(''featureset_name'', JStr ''A_minus_f1''), (''featureset'', JStr ''[f2]''),
      (''result_table'', JStr ''t''), (''score'', JNum 0.25)]"

definition other_child_record :: lrd where
  "other_child_record =
     [(''featureset_name'', JStr ''A_minus_f2''), (''featureset'', JStr ''[f1]''),
      (''result_table'', JStr ''t''), (''score'', JNum 0.75)]"

definition example_summary_fs :: filesystem where
  "example_summary_fs =
     (\<lambda>p. if p = ''a.json'' then Some (Doc [parent_record])
          else if p = ''b.json'' then Some (Doc [child_record])
          else if p = ''c.json'' then Some (Doc [other_child_record])
          else None)"

text \<open>
  One file holding two folds of different featuresets: the first record is not an
  ablation child, the second is, and it carries a field the first lacks.
\<close>

definition mixed_fs :: filesystem where
  "mixed_fs =
     (\<lambda>p. if p = ''m.json''
          then Some (Doc [[(''featureset_name'', JStr ''B''), (''featureset'', JStr ''[f1]'')],
                          [(''featureset_name'', JStr ''A_minus_f1''),
                           (''featureset'', JStr ''[f2]''), (''score'', JNum 0.5)]])
          else None)"

text \<open>
  What the file at one path adds to the feature union of a parent: the decoded features
  of its first record, when that record is an ablation child of the parent.
\<close>

definition first_record_features :: "decoder \<Rightarrow> filesystem \<Rightarrow> string \<Rightarrow> string \<Rightarrow> string set" where
  "first_record_features yaml_load fs parent p =
     (case fs p of
        Some (Doc (first # _)) \<Rightarrow>
          (case map_of first ''featureset_name'' of
             Some (JStr s) \<Rightarrow>
               if contains marker s \<and> split_first marker s = parent
               then (case map_of first ''featureset'' of
                       Some v \<Rightarrow> (case yaml_load v of Inr features \<Rightarrow> set features | Inl e \<Rightarrow> {})
                     | None \<Rightarrow> {})
               else {}
           | _ \<Rightarrow> {})
      | _ \<Rightarrow> {})"

text \<open>The records of the file at a path (none when there is no such document).\<close>

definition records_at :: "filesystem \<Rightarrow> string \<Rightarrow> lrd list" where
  "records_at fs p = (case fs p of Some (Doc obj) \<Rightarrow> obj | _ \<Rightarrow> [])"

text \<open>
  A file is uniform when all its records carry the featureset name and the feature list
  of its first record, as the folds of one job do.
\<close>

definition uniform_file :: "filesystem \<Rightarrow> string \<Rightarrow> bool" where
  "uniform_file fs p \<longleftrightarrow>
     list_all (\<lambda>r. map_of r ''featureset_name'' = map_of (hd (records_at fs p)) ''featureset_name'' \<and>
                   map_of r ''featureset'' = map_of (hd (records_at fs p)) ''featureset'')
       (records_at fs p)"

text \<open>
  A long-form score table with one training and one test observation of one metric, and
  one whose only observation has an infinite upper band.
\<close>

definition example_long_df :: "observation list" where
  "example_long_df =
     [\<lparr>variable = ''train_score_mean'', metric = ''pearson'', val = Finite 0.5,
       train_score_std = Finite 0.25, test_score_std = Finite 0.5\<rparr>,
      \<lparr>variable = ''test_score_mean'', metric = ''pearson'', val = Finite (- 0.25),
       train_score_std = Finite 0.25, test_score_std = Finite 0.5\<rparr>]"

definition infinite_long_df :: "observation list" where
  "infinite_long_df =
     [\<lparr>variable = ''train_score_mean'', metric = ''pearson'', val = PInf,
       train_score_std = Finite 0.25, test_score_std = Finite 0.5\<rparr>]"

text \<open>
  The table written for the example record, as read back from the TSV file: the
  thirteen columns of the learning-curve header and one row per training-set size.
\<close>

definition example_wide_df :: frame where
  "example_wide_df =
     \<lparr>columns = curve_header,
      frame_rows =
        [[CStr ''A'', CStr ''SVC'', CStr ''accuracy'', CStr ''train'', CNum 10,
          CNum 0.5, CNum 0.4, CNum 0.1, CNum 0.05, CNum 0.05, CNum 0.01,
          CStr ''1.4'', CStr ''5.0''],
         [CStr ''A'', CStr ''SVC'', CStr ''accuracy'', CStr ''train'', CNum 20,
          CNum 0.6, CNum 0.5, CNum 0.2, CNum 0.05, CNum 0.05, CNum 0.01,
          CStr ''1.4'', CStr ''5.0'']]\<rparr>"

text \<open>
  Following the claim's words: the features of one record that is an ablation child of a
  parent, and the feature union ever seen for the parent across all its ablation
  children among the loaded records.
\<close>

definition child_features :: "decoder \<Rightarrow> string \<Rightarrow> lrd \<Rightarrow> string set" where
  "child_features yaml_load parent r =
     (case map_of r ''featureset_name'' of
        Some (JStr s) \<Rightarrow>
          if contains marker s \<and> split_first marker s = parent
          then (case map_of r ''featureset'' of
                  Some v \<Rightarrow> (case yaml_load v of Inr features \<Rightarrow> set features | Inl e \<Rightarrow> {})
                | None \<Rightarrow> {})
          else {}
      | _ \<Rightarrow> {})"

definition ever_seen_union :: "decoder \<Rightarrow> lrd list \<Rightarrow> string \<Rightarrow> string set" where
  "ever_seen_union yaml_load learner_result_dicts parent =
     (\<Union>r \<in> set learner_result_dicts. child_features yaml_load parent r)"

text \<open>One file holding both ablation children of \<open>A\<close>.\<close>

definition siblings_fs :: filesystem where
  "siblings_fs =
     (\<lambda>p. if p = ''s.json'' then Some (Doc [child_record, other_child_record]) else None)"

section \<open>Auxiliary facts\<close>

lemma bind_error_simps [simp]:
  "bind_error (Inl e) f = Inl e"
  "bind_error (Inr x) f = f x"
  by (simp_all add: bind_error_def)

lemma curve_header_distinct: "distinct curve_header"
  by (simp add: curve_header_def)

lemma cell_dict_to_list:
  "distinct header \<Longrightarrow> k \<in> set header \<Longrightarrow>
     cell header (dict_to_list header d) k
       = Some (case map_of d k of None \<Rightarrow> JStr [] | Some v \<Rightarrow> v)"
  unfolding cell_def dict_to_list_def
  by (simp add: map_of_zip_map)

lemma length_write_points: "length (write_points d pts) = length pts"
  by (induction pts arbitrary: d) (simp_all add: Let_def)

lemma write_points_nth:
  "i < length pts \<Longrightarrow>
     write_points d pts ! i = dict_to_list curve_header (foldl set_point d (take (Suc i) pts))"
proof (induction pts arbitrary: d i)
  case Nil
  then show ?case by simp
next
  case (Cons pt pts)
  then show ?case by (cases i) (simp_all add: Let_def)
qed

lemma map_of_set_point:
  "map_of (set_point d (a, b, c, f, g, h, i)) =
     (map_of d)(''training_set_size'' \<mapsto> a, ''train_score_mean'' \<mapsto> b,
        ''test_score_mean'' \<mapsto> c, ''fit_time_mean'' \<mapsto> f, ''train_score_std'' \<mapsto> g,
        ''test_score_std'' \<mapsto> h, ''fit_time_std'' \<mapsto> i)"
  by (simp add: update_conv')

lemma map_of_fold_set_point_other:
  "k \<notin> {''training_set_size'', ''train_score_mean'', ''test_score_mean'', ''fit_time_mean'',
         ''train_score_std'', ''test_score_std'', ''fit_time_std''} \<Longrightarrow>
     map_of (foldl set_point d pts) k = map_of d k"
proof (induction pts arbitrary: d)
  case Nil
  then show ?case by simp
next
  case (Cons pt pts)
  obtain a b c f g h i where pt: "pt = (a, b, c, f, g, h, i)" by (cases pt) auto
  from Cons show ?case by (simp add: pt map_of_set_point del: set_point.simps)
qed

lemma map_of_fold_set_point_last:
  "map_of (foldl set_point d (pts @ [(a, b, c, f, g, h, i)])) =
     (map_of (foldl set_point d pts))(''training_set_size'' \<mapsto> a, ''train_score_mean'' \<mapsto> b,
        ''test_score_mean'' \<mapsto> c, ''fit_time_mean'' \<mapsto> f, ''train_score_std'' \<mapsto> g,
        ''test_score_std'' \<mapsto> h, ''fit_time_std'' \<mapsto> i)"
  by (simp add: map_of_set_point del: set_point.simps)


lemma getitem_Some: "map_of d k = Some v \<Longrightarrow> getitem d k = Inr v"
  by (simp add: getitem_def)

lemma length_zip7:
  "length (zip7 a b c f g h i) =
     min (length a) (min (length b) (min (length c) (min (length f)
       (min (length g) (min (length h) (length i))))))"
  by (simp add: zip7_def)

lemma zip7_nth:
  "n < length (zip7 a b c f g h i) \<Longrightarrow>
     zip7 a b c f g h i ! n = (a ! n, b ! n, c ! n, f ! n, g ! n, h ! n, i ! n)"
  by (simp add: zip7_def)

lemma point_row_cells:
  assumes "n < length pts" and "pts ! n = (a, b, c, f, g, h, i)"
    and "map_of d ''metric'' = Some m"
  shows "cell curve_header (write_points d pts ! n) ''training_set_size'' = Some a"
    and "cell curve_header (write_points d pts ! n) ''train_score_mean'' = Some b"
    and "cell curve_header (write_points d pts ! n) ''test_score_mean'' = Some c"
    and "cell curve_header (write_points d pts ! n) ''fit_time_mean'' = Some f"
    and "cell curve_header (write_points d pts ! n) ''train_score_std'' = Some g"
    and "cell curve_header (write_points d pts ! n) ''test_score_std'' = Some h"
    and "cell curve_header (write_points d pts ! n) ''fit_time_std'' = Some i"
    and "cell curve_header (write_points d pts ! n) ''metric'' = Some m"
proof -
  have tk: "take (Suc n) pts = take n pts @ [(a, b, c, f, g, h, i)]"
    using assms(1,2) by (simp add: take_Suc_conv_app_nth)
  have row: "write_points d pts ! n
      = dict_to_list curve_header (foldl set_point d (take n pts @ [(a, b, c, f, g, h, i)]))"
    using write_points_nth [OF assms(1), of d] tk by simp
  have mo: "map_of (foldl set_point d (take n pts @ [(a, b, c, f, g, h, i)])) =
     (map_of (foldl set_point d (take n pts)))(''training_set_size'' \<mapsto> a,
        ''train_score_mean'' \<mapsto> b, ''test_score_mean'' \<mapsto> c, ''fit_time_mean'' \<mapsto> f,
        ''train_score_std'' \<mapsto> g, ''test_score_std'' \<mapsto> h, ''fit_time_std'' \<mapsto> i)"
    by (rule map_of_fold_set_point_last)
  have met: "map_of (foldl set_point d (take n pts)) ''metric'' = Some m"
    using map_of_fold_set_point_other [of "''metric''" d "take n pts"] assms(3) by simp
  show "cell curve_header (write_points d pts ! n) ''training_set_size'' = Some a"
    unfolding row by (subst cell_dict_to_list) (simp_all add: curve_header_def mo del: foldl_append set_point.simps)
  show "cell curve_header (write_points d pts ! n) ''train_score_mean'' = Some b"
    unfolding row by (subst cell_dict_to_list) (simp_all add: curve_header_def mo del: foldl_append set_point.simps)
  show "cell curve_header (write_points d pts ! n) ''test_score_mean'' = Some c"
    unfolding row by (subst cell_dict_to_list) (simp_all add: curve_header_def mo del: foldl_append set_point.simps)
  show "cell curve_header (write_points d pts ! n) ''fit_time_mean'' = Some f"
    unfolding row by (subst cell_dict_to_list) (simp_all add: curve_header_def mo del: foldl_append set_point.simps)
  show "cell curve_header (write_points d pts ! n) ''train_score_std'' = Some g"
    unfolding row by (subst cell_dict_to_list) (simp_all add: curve_header_def mo del: foldl_append set_point.simps)
  show "cell curve_header (write_points d pts ! n) ''test_score_std'' = Some h"
    unfolding row by (subst cell_dict_to_list) (simp_all add: curve_header_def mo del: foldl_append set_point.simps)
  show "cell curve_header (write_points d pts ! n) ''fit_time_std'' = Some i"
    unfolding row by (subst cell_dict_to_list) (simp_all add: curve_header_def mo del: foldl_append set_point.simps)
  show "cell curve_header (write_points d pts ! n) ''metric'' = Some m"
    unfolding row by (subst cell_dict_to_list) (simp_all add: curve_header_def mo met del: foldl_append set_point.simps)
qed

lemma flatten_record_arrays:
  assumes "getitem d ''computed_curve_train_sizes'' = Inr va" "py_iter va = Inr a"
    and "getitem d ''learning_curve_train_scores_means'' = Inr vb" "py_iter vb = Inr b"
    and "getitem d ''learning_curve_test_scores_means'' = Inr vc" "py_iter vc = Inr c"
    and "getitem d ''learning_curve_fit_times_means'' = Inr vf" "py_iter vf = Inr f"
    and "getitem d ''learning_curve_train_scores_stds'' = Inr vg" "py_iter vg = Inr g"
    and "getitem d ''learning_curve_test_scores_stds'' = Inr vh" "py_iter vh = Inr h"
    and "getitem d ''learning_curve_fit_times_stds'' = Inr vi" "py_iter vi = Inr i"
    and "getitem d ''grid_objective'' = Inr m"
  shows "flatten_record d =
           Inr (write_points (AList.update ''metric'' m d) (zip7 a b c f g h i))"
  unfolding flatten_record_def using assms by simp

lemma write_curve_rows_append:
  "\<forall>r \<in> set pre. flatten_record r = Inr (record_rows r) \<Longrightarrow>
     write_curve_rows (pre @ ds) =
       (concat (map record_rows pre) @ fst (write_curve_rows ds), snd (write_curve_rows ds))"
  by (induction pre) (simp_all split: prod.splits)


section \<open>Learning-curve rows\<close>

text \<open>
  C5. A learning-curve record whose seven sequences are arrays of one length \<open>n\<close> gives
  exactly \<open>n\<close> rows; row \<open>k\<close> carries the \<open>k\<close>-th element of each sequence under its
  column, and under \<open>metric\<close> the record's \<open>grid_objective\<close>. In the written table these
  rows stand after the header and the rows of the records before it.
\<close>

theorem curve_rows_positional:
  assumes "map_of d ''computed_curve_train_sizes'' = Some (JArr a)"
    and "map_of d ''learning_curve_train_scores_means'' = Some (JArr b)"
    and "map_of d ''learning_curve_test_scores_means'' = Some (JArr c)"
    and "map_of d ''learning_curve_fit_times_means'' = Some (JArr f)"
    and "map_of d ''learning_curve_train_scores_stds'' = Some (JArr g)"
    and "map_of d ''learning_curve_test_scores_stds'' = Some (JArr h)"
    and "map_of d ''learning_curve_fit_times_stds'' = Some (JArr i)"
    and "map_of d ''grid_objective'' = Some m"
    and "length a = n" "length b = n" "length c = n" "length f = n"
        "length g = n" "length h = n" "length i = n"
  shows "flatten_record d = Inr (record_rows d) \<and> length (record_rows d) = n \<and>
         (\<forall>k<n. cell curve_header (record_rows d ! k) ''training_set_size'' = Some (a ! k) \<and>
                cell curve_header (record_rows d ! k) ''train_score_mean'' = Some (b ! k) \<and>
                cell curve_header (record_rows d ! k) ''test_score_mean'' = Some (c ! k) \<and>
                cell curve_header (record_rows d ! k) ''fit_time_mean'' = Some (f ! k) \<and>
                cell curve_header (record_rows d ! k) ''train_score_std'' = Some (g ! k) \<and>
                cell curve_header (record_rows d ! k) ''test_score_std'' = Some (h ! k) \<and>
                cell curve_header (record_rows d ! k) ''fit_time_std'' = Some (i ! k) \<and>
                cell curve_header (record_rows d ! k) ''metric'' = Some m) \<and>
         (\<forall>fs paths pre post.
            load_curve_results fs paths [] = Done (pre @ d # post) \<and>
            (\<forall>r \<in> set pre. flatten_record r = Inr (record_rows r)) \<longrightarrow>
            out (write_learning_curve_file fs paths) =
              map JStr curve_header # concat (map record_rows pre) @ record_rows d
                @ fst (write_curve_rows post))"
proof -
  let ?d = "AList.update ''metric'' m d"
  let ?pts = "zip7 a b c f g h i"
  have fl: "flatten_record d = Inr (write_points ?d ?pts)"
    by (rule flatten_record_arrays [where va = "JArr a" and vb = "JArr b" and vc = "JArr c"
          and vf = "JArr f" and vg = "JArr g" and vh = "JArr h" and vi = "JArr i"])
       (simp_all add: getitem_Some assms)
  then have rr: "record_rows d = write_points ?d ?pts"
    by (simp add: record_rows_def)
  have len: "length ?pts = n"
    by (simp add: length_zip7 assms)
  have met: "map_of ?d ''metric'' = Some m"
    by (simp add: update_conv')
  have cells: "cell curve_header (record_rows d ! k) ''training_set_size'' = Some (a ! k) \<and>
               cell curve_header (record_rows d ! k) ''train_score_mean'' = Some (b ! k) \<and>
               cell curve_header (record_rows d ! k) ''test_score_mean'' = Some (c ! k) \<and>
               cell curve_header (record_rows d ! k) ''fit_time_mean'' = Some (f ! k) \<and>
               cell curve_header (record_rows d ! k) ''train_score_std'' = Some (g ! k) \<and>
               cell curve_header (record_rows d ! k) ''test_score_std'' = Some (h ! k) \<and>
               cell curve_header (record_rows d ! k) ''fit_time_std'' = Some (i ! k) \<and>
               cell curve_header (record_rows d ! k) ''metric'' = Some m" if "k < n" for k
  proof -
    have k: "k < length ?pts" using that len by simp
    have pt: "?pts ! k = (a ! k, b ! k, c ! k, f ! k, g ! k, h ! k, i ! k)"
      by (rule zip7_nth [OF k])
    show ?thesis
      unfolding rr using point_row_cells [OF k pt met] by simp
  qed
  have whole: "out (write_learning_curve_file fs paths) =
              map JStr curve_header # concat (map record_rows pre) @ record_rows d
                @ fst (write_curve_rows post)"
    if "load_curve_results fs paths [] = Done (pre @ d # post)"
      and "\<forall>r \<in> set pre. flatten_record r = Inr (record_rows r)" for fs paths pre post
    using that(1) write_curve_rows_append [OF that(2), of "d # post"] fl rr
    by (simp add: write_learning_curve_file_def split: prod.splits)
  show ?thesis
    using fl rr len cells whole by (simp add: length_write_points)
qed

theorem curve_rows_positional_witness:
  "length (record_rows example_curve_record) = 2 \<and>
   cell curve_header (record_rows example_curve_record ! 1) ''training_set_size'' = Some (JNum 20) \<and>
   cell curve_header (record_rows example_curve_record ! 1) ''test_score_mean'' = Some (JNum 0.5) \<and>
   cell curve_header (record_rows example_curve_record ! 0) ''metric'' = Some (JStr ''accuracy'') \<and>
   out (write_learning_curve_file example_curve_fs [''a.json'']) =
     map JStr curve_header # record_rows example_curve_record"
proof -
  have ld: "load_curve_results example_curve_fs [''a.json''] [] = Done ([] @ example_curve_record # [])"
    by (simp add: example_curve_fs_def)
  have c: "flatten_record example_curve_record = Inr (record_rows example_curve_record) \<and>
      length (record_rows example_curve_record) = 2 \<and>
      (\<forall>k<2. cell curve_header (record_rows example_curve_record ! k) ''training_set_size''
                 = Some ([JNum 10, JNum 20] ! k) \<and>
             cell curve_header (record_rows example_curve_record ! k) ''train_score_mean''
                 = Some ([JNum 0.5, JNum 0.6] ! k) \<and>
             cell curve_header (record_rows example_curve_record ! k) ''test_score_mean''
                 = Some ([JNum 0.4, JNum 0.5] ! k) \<and>
             cell curve_header (record_rows example_curve_record ! k) ''fit_time_mean''
                 = Some ([JNum 0.1, JNum 0.2] ! k) \<and>
             cell curve_header (record_rows example_curve_record ! k) ''train_score_std''
                 = Some ([JNum 0.05, JNum 0.05] ! k) \<and>
             cell curve_header (record_rows example_curve_record ! k) ''test_score_std''
                 = Some ([JNum 0.05, JNum 0.05] ! k) \<and>
             cell curve_header (record_rows example_curve_record ! k) ''fit_time_std''
                 = Some ([JNum 0.01, JNum 0.01] ! k) \<and>
             cell curve_header (record_rows example_curve_record ! k) ''metric''
                 = Some (JStr ''accuracy'')) \<and>
      (\<forall>fs paths pre post.
          load_curve_results fs paths [] = Done (pre @ example_curve_record # post) \<and>
          (\<forall>r \<in> set pre. flatten_record r = Inr (record_rows r)) \<longrightarrow>
          out (write_learning_curve_file fs paths) =
            map JStr curve_header # concat (map record_rows pre)
              @ record_rows example_curve_record @ fst (write_curve_rows post))"
    by (rule curve_rows_positional) (simp_all add: example_curve_record_def)
  from c have k1: "cell curve_header (record_rows example_curve_record ! 1) ''training_set_size''
         = Some (JNum 20)"
    and k2: "cell curve_header (record_rows example_curve_record ! 1) ''test_score_mean''
         = Some (JNum 0.5)"
    and k3: "cell curve_header (record_rows example_curve_record ! 0) ''metric''
         = Some (JStr ''accuracy'')"
    by simp_all
  from c ld have w: "out (write_learning_curve_file example_curve_fs [''a.json'']) =
      map JStr curve_header # concat (map record_rows [])
        @ record_rows example_curve_record @ fst (write_curve_rows [])"
    by (metis empty_iff list.set(1))
  from c k1 k2 k3 w show ?thesis by simp
qed

text \<open>
  C6 (as amended). A record whose seven sequences are present and iterable, of whatever
  lengths, never makes the flattening raise: it gives as many rows as the shortest
  sequence has elements, the surplus of the longer ones being dropped.
\<close>

theorem ragged_record_truncates:
  assumes "getitem d ''computed_curve_train_sizes'' = Inr va" "py_iter va = Inr a"
    and "getitem d ''learning_curve_train_scores_means'' = Inr vb" "py_iter vb = Inr b"
    and "getitem d ''learning_curve_test_scores_means'' = Inr vc" "py_iter vc = Inr c"
    and "getitem d ''learning_curve_fit_times_means'' = Inr vf" "py_iter vf = Inr f"
    and "getitem d ''learning_curve_train_scores_stds'' = Inr vg" "py_iter vg = Inr g"
    and "getitem d ''learning_curve_test_scores_stds'' = Inr vh" "py_iter vh = Inr h"
    and "getitem d ''learning_curve_fit_times_stds'' = Inr vi" "py_iter vi = Inr i"
    and "getitem d ''grid_objective'' = Inr m"
  shows "flatten_record d = Inr (record_rows d) \<and>
         length (record_rows d) =
           min (length a) (min (length b) (min (length c) (min (length f)
             (min (length g) (min (length h) (length i))))))"
proof -
  have fl: "flatten_record d =
           Inr (write_points (AList.update ''metric'' m d) (zip7 a b c f g h i))"
    by (rule flatten_record_arrays [OF assms])
  then show ?thesis
    by (simp add: record_rows_def length_write_points length_zip7)
qed

theorem ragged_record_truncates_witness:
  "flatten_record ragged_curve_record = Inr (record_rows ragged_curve_record) \<and>
   length (record_rows ragged_curve_record) = 1"
proof -
  have "flatten_record ragged_curve_record = Inr (record_rows ragged_curve_record) \<and>
        length (record_rows ragged_curve_record) =
          min (length [JNum 10, JNum 20]) (min (length [JNum 0.5])
            (min (length [JNum 0.4, JNum 0.5]) (min (length [JNum 0.1, JNum 0.2])
              (min (length [JNum 0.05, JNum 0.05]) (min (length [JNum 0.05, JNum 0.05])
                (length [JNum 0.01, JNum 0.01]))))))"
    by (rule ragged_record_truncates
          [where va = "JArr [JNum 10, JNum 20]" and vb = "JArr [JNum 0.5]"
             and vc = "JArr [JNum 0.4, JNum 0.5]" and vf = "JArr [JNum 0.1, JNum 0.2]"
             and vg = "JArr [JNum 0.05, JNum 0.05]" and vh = "JArr [JNum 0.05, JNum 0.05]"
             and vi = "JArr [JNum 0.01, JNum 0.01]" and m = "JStr ''accuracy''"])
       (simp_all add: ragged_curve_record_def getitem_def)
  then show ?thesis by simp
qed

text \<open>
  The claim as stated fails: the ragged record, with two sizes and one training score
  mean, is written as one row and the call returns normally.
\<close>

theorem ragged_record_flattens_counterexample:
  "write_learning_curve_file ragged_curve_fs [''r.json''] =
     \<lparr>out = [map JStr curve_header,
             [JStr ''A'', JStr ''SVC'', JStr ''accuracy'', JStr [], JNum 10,
              JNum 0.5, JNum 0.4, JNum 0.1, JNum 0.05, JNum 0.05, JNum 0.01, JStr [], JStr []]],
      logged = [], status = None\<rparr>"
  by code_simp

section \<open>Missing input files\<close>

lemma load_curve_results_append:
  "load_curve_results fs pre acc = Done recs \<Longrightarrow>
     load_curve_results fs (pre @ ps) acc = load_curve_results fs ps recs"
  by (induction pre arbitrary: acc) (auto split: option.splits result_file.splits)

lemma load_curve_results_missing:
  "p \<in> set ps \<Longrightarrow> fs p = None \<Longrightarrow> load_curve_results fs ps acc \<noteq> Done recs"
  by (induction ps arbitrary: acc) (auto split: option.splits result_file.splits)

lemma load_summary_results_append:
  "load_summary_results yl fs ab pre st = Done st' \<Longrightarrow>
     load_summary_results yl fs ab (pre @ ps) st = load_summary_results yl fs ab ps st'"
  by (induction yl fs ab pre st rule: load_summary_results.induct)
     (auto split: option.splits result_file.splits sum.splits)

lemma load_summary_results_missing:
  "p \<in> set ps \<Longrightarrow> fs p = None \<Longrightarrow> load_summary_results yl fs ab ps st \<noteq> Done st'"
  by (induction yl fs ab ps st rule: load_summary_results.induct)
     (auto split: option.splits result_file.splits sum.splits)

lemma load_summary_results_empty_doc:
  "p \<in> set ps \<Longrightarrow> fs p = Some (Doc []) \<Longrightarrow> load_summary_results yl fs ab ps st \<noteq> Done st'"
  by (induction yl fs ab ps st rule: load_summary_results.induct)
     (auto simp: note_features_def split: option.splits result_file.splits sum.splits)

lemma curve_out_unless_done:
  "\<forall>recs. load_curve_results fs ps [] \<noteq> Done recs \<Longrightarrow>
     out (write_learning_curve_file fs ps) = []"
  by (cases "load_curve_results fs ps []") (auto simp: write_learning_curve_file_def)

lemma summary_out_unless_done:
  "\<forall>st. load_summary_results yl fs ab ps ([], \<lambda>_. {}) \<noteq> Done st \<Longrightarrow>
     out (write_summary_file yl jd fs ps ab) = []"
  by (cases "load_summary_results yl fs ab ps ([], \<lambda>_. {})") (auto simp: write_summary_file_def)

text \<open>
  C1 (as amended). When some input path names no file, neither aggregator writes
  anything, whatever else the paths name. The missing path is the one reported, and the
  call returns normally, when the paths before it load; otherwise the exception of the
  earlier file ends the call first.
\<close>

theorem missing_path_writes_nothing:
  assumes "p \<in> set result_json_paths" and "fs p = None"
  shows "out (write_summary_file yaml_load json_dumps fs result_json_paths ablation) = [] \<and>
         out (write_learning_curve_file fs result_json_paths) = [] \<and>
         (\<forall>pre post st.
            result_json_paths = pre @ p # post \<and>
            load_summary_results yaml_load fs ablation pre ([], \<lambda>_. {}) = Done st \<longrightarrow>
            write_summary_file yaml_load json_dumps fs result_json_paths ablation =
              \<lparr>out = [], logged = [p], status = None\<rparr>) \<and>
         (\<forall>pre post recs.
            result_json_paths = pre @ p # post \<and> load_curve_results fs pre [] = Done recs \<longrightarrow>
            write_learning_curve_file fs result_json_paths =
              \<lparr>out = [], logged = [p], status = None\<rparr>)"
proof -
  have s0: "out (write_summary_file yaml_load json_dumps fs result_json_paths ablation) = []"
    by (rule summary_out_unless_done) (simp add: load_summary_results_missing [where fs = fs, OF assms])
  have c0: "out (write_learning_curve_file fs result_json_paths) = []"
    by (rule curve_out_unless_done) (simp add: load_curve_results_missing [where fs = fs, OF assms])
  have s1: "write_summary_file yaml_load json_dumps fs result_json_paths ablation =
              \<lparr>out = [], logged = [p], status = None\<rparr>"
    if "result_json_paths = pre @ p # post"
      and "load_summary_results yaml_load fs ablation pre ([], \<lambda>_. {}) = Done st"
    for pre post st
  proof -
    have "load_summary_results yaml_load fs ablation (pre @ p # post) ([], \<lambda>_. {}) = Missing p"
      using load_summary_results_append [OF that(2), of "p # post"] assms(2)
      by (cases st) simp
    then show ?thesis
      by (simp add: write_summary_file_def that(1))
  qed
  have c1: "write_learning_curve_file fs result_json_paths =
              \<lparr>out = [], logged = [p], status = None\<rparr>"
    if "result_json_paths = pre @ p # post" and "load_curve_results fs pre [] = Done recs"
    for pre post recs
  proof -
    have "load_curve_results fs (pre @ p # post) [] = Missing p"
      using load_curve_results_append [OF that(2), of "p # post"] assms(2) by simp
    then show ?thesis
      by (simp add: write_learning_curve_file_def that(1))
  qed
  from s0 c0 s1 c1 show ?thesis by blast
qed

theorem missing_path_writes_nothing_witness:
  "write_summary_file flow_names dumps_names example_summary_fs [''a.json'', ''x.json'', ''b.json''] 1
     = \<lparr>out = [], logged = [''x.json''], status = None\<rparr> \<and>
   write_learning_curve_file example_curve_fs [''a.json'', ''x.json'']
     = \<lparr>out = [], logged = [''x.json''], status = None\<rparr>"
proof -
  have m1: "example_summary_fs ''x.json'' = None"
    by (simp add: example_summary_fs_def)
  have m2: "example_curve_fs ''x.json'' = None"
    by (simp add: example_curve_fs_def)
  have l1: "load_summary_results flow_names example_summary_fs 1 [''a.json''] ([], \<lambda>_. {})
              = Done ([parent_record], \<lambda>_. {})"
    by (simp add: example_summary_fs_def note_features_def parent_record_def getitem_def marker_def)
  have l2: "load_curve_results example_curve_fs [''a.json''] [] = Done [example_curve_record]"
    by (simp add: example_curve_fs_def)
  have i1: "''x.json'' \<in> set [''a.json'', ''x.json'', ''b.json'']" by simp
  have i2: "''x.json'' \<in> set [''a.json'', ''x.json'']" by simp
  have a: "write_summary_file flow_names dumps_names example_summary_fs
             [''a.json'', ''x.json'', ''b.json''] 1 = \<lparr>out = [], logged = [''x.json''], status = None\<rparr>"
    using missing_path_writes_nothing [where fs = example_summary_fs and yaml_load = flow_names
        and json_dumps = dumps_names and ablation = 1, OF i1 m1] l1
    by (metis append_Cons append_Nil)
  have b: "write_learning_curve_file example_curve_fs [''a.json'', ''x.json'']
             = \<lparr>out = [], logged = [''x.json''], status = None\<rparr>"
    using missing_path_writes_nothing [where fs = example_curve_fs, OF i2 m2] l2
    by (metis append_Cons append_Nil)
  from a b show ?thesis by simp
qed

text \<open>
  The claim as stated fails: an empty array in the file before the missing path ends the
  summary with \<open>IndexError\<close> and nothing is logged.
\<close>

theorem missing_path_unreported_counterexample:
  "write_summary_file flow_names dumps_names empty_doc_fs [''a.json'', ''b.json''] 0
     = \<lparr>out = [], logged = [], status = Some IndexError\<rparr>"
  by code_simp

section \<open>The summary header\<close>

lemma summary_header_props:
  "sorted (summary_header ablation first) \<and> distinct (summary_header ablation first) \<and>
   set (summary_header ablation first) =
     (set (map fst first) - {''result_table'', ''descriptive''})
       \<union> (if ablation \<noteq> 0 then {''ablated_features''} else {})"
  by (simp add: summary_header_def)

text \<open>
  C4 (as amended). When the files load and hold at least one record, the first written
  row is the header: the sorted, duplicate-free field names of the first loaded record,
  without \<open>result_table\<close> and \<open>descriptive\<close>, together with \<open>ablated_features\<close>
  when ablation is enabled. Fields that only later records have are not in it.
\<close>

theorem summary_header_of_first_record:
  assumes "load_summary_results yaml_load fs ablation result_json_paths ([], \<lambda>_. {})
             = Done (first # others, all_features)"
  shows "\<exists>header body.
           out (write_summary_file yaml_load json_dumps fs result_json_paths ablation)
             = map JStr header # body \<and>
           sorted header \<and> distinct header \<and>
           set header = (set (map fst first) - {''result_table'', ''descriptive''})
                          \<union> (if ablation \<noteq> 0 then {''ablated_features''} else {})"
proof -
  obtain body st where
    "write_summary_rows yaml_load json_dumps ablation all_features
       (summary_header ablation first) (first # others) = (body, st)"
    by (cases "write_summary_rows yaml_load json_dumps ablation all_features
                 (summary_header ablation first) (first # others)") 
  with assms have "out (write_summary_file yaml_load json_dumps fs result_json_paths ablation)
      = map JStr (summary_header ablation first) # body"
    by (simp add: write_summary_file_def)
  then show ?thesis
    using summary_header_props [of ablation first] by blast
qed

theorem summary_header_of_first_record_witness:
  "\<exists>header body.
     out (write_summary_file flow_names dumps_names example_summary_fs [''a.json'', ''b.json''] 1)
       = map JStr header # body \<and>
     sorted header \<and> distinct header \<and>
     set header = {''featureset_name'', ''featureset'', ''score'', ''ablated_features''}"
proof -
  have ld: "load_summary_results flow_names example_summary_fs 1 [''a.json'', ''b.json'']
              ([], \<lambda>_. {}) = Done (parent_record # [child_record], (\<lambda>_. {})(''A'' := {''f2''}))"
    by (simp add: example_summary_fs_def note_features_def parent_record_def child_record_def
          getitem_def marker_def)
  have ks: "(set (map fst parent_record) - {''result_table'', ''descriptive''})
              \<union> (if (1::int) \<noteq> 0 then {''ablated_features''} else {})
            = {''featureset_name'', ''featureset'', ''score'', ''ablated_features''}"
    by (auto simp: parent_record_def)
  show ?thesis
    using summary_header_of_first_record [OF ld, of dumps_names] unfolding ks .
qed

text \<open>
  The claim as stated fails: the second record of the file has a \<open>score\<close> field, the
  first has none, and the header has no \<open>score\<close> column.
\<close>

theorem summary_header_ignores_later_records_counterexample:
  "out (write_summary_file flow_names dumps_names mixed_fs [''m.json''] 0) =
     [[JStr ''featureset'', JStr ''featureset_name''],
      [JStr ''[f1]'', JStr ''B''], [JStr ''[f2]'', JStr ''A_minus_f1'']]"
  by code_simp

section \<open>Empty inputs\<close>

text \<open>
  C10 (as amended). On an empty path list the summary fails with \<open>IndexError\<close> before
  anything is written. When some path names a file holding an empty array, nothing is
  written either; the call fails with \<open>IndexError\<close> at that file when the paths before
  it load, and otherwise ends as the earlier path makes it end.
\<close>

theorem empty_input_fails_before_output:
  "write_summary_file yaml_load json_dumps fs [] ablation
     = \<lparr>out = [], logged = [], status = Some IndexError\<rparr> \<and>
   (\<forall>p. p \<in> set result_json_paths \<and> fs p = Some (Doc []) \<longrightarrow>
      out (write_summary_file yaml_load json_dumps fs result_json_paths ablation) = []) \<and>
   (\<forall>p pre post st.
      result_json_paths = pre @ p # post \<and> fs p = Some (Doc []) \<and>
      load_summary_results yaml_load fs ablation pre ([], \<lambda>_. {}) = Done st \<longrightarrow>
      write_summary_file yaml_load json_dumps fs result_json_paths ablation
        = \<lparr>out = [], logged = [], status = Some IndexError\<rparr>)"
proof -
  have a: "write_summary_file yaml_load json_dumps fs [] ablation
     = \<lparr>out = [], logged = [], status = Some IndexError\<rparr>"
    by (simp add: write_summary_file_def)
  have b: "out (write_summary_file yaml_load json_dumps fs result_json_paths ablation) = []"
    if "p \<in> set result_json_paths" and "fs p = Some (Doc [])" for p
    by (rule summary_out_unless_done)
       (simp add: load_summary_results_empty_doc [where fs = fs, OF that])
  have c: "write_summary_file yaml_load json_dumps fs result_json_paths ablation
        = \<lparr>out = [], logged = [], status = Some IndexError\<rparr>"
    if "result_json_paths = pre @ p # post" and "fs p = Some (Doc [])"
      and "load_summary_results yaml_load fs ablation pre ([], \<lambda>_. {}) = Done st"
    for p pre post st
  proof -
    have "load_summary_results yaml_load fs ablation (pre @ p # post) ([], \<lambda>_. {})
            = Raised IndexError"
      using load_summary_results_append [OF that(3), of "p # post"] that(2)
      by (cases st) (simp add: note_features_def)
    then show ?thesis
      by (simp add: write_summary_file_def that(1))
  qed
  from a b c show ?thesis by blast
qed

theorem empty_input_fails_before_output_witness:
  "write_summary_file flow_names dumps_names empty_doc_fs [] 1
     = \<lparr>out = [], logged = [], status = Some IndexError\<rparr> \<and>
   out (write_summary_file flow_names dumps_names empty_doc_fs [''b.json'', ''a.json''] 1) = [] \<and>
   write_summary_file flow_names dumps_names empty_doc_fs [''a.json'', ''b.json''] 1
     = \<lparr>out = [], logged = [], status = Some IndexError\<rparr>"
proof -
  note t = empty_input_fails_before_output [where fs = empty_doc_fs and yaml_load = flow_names
      and json_dumps = dumps_names and ablation = 1]
  have e: "empty_doc_fs ''a.json'' = Some (Doc [])"
    by (simp add: empty_doc_fs_def)
  have l: "load_summary_results flow_names empty_doc_fs 1 [] ([], \<lambda>_. {}) = Done ([], \<lambda>_. {})"
    by simp
  have a: "write_summary_file flow_names dumps_names empty_doc_fs [] 1
     = \<lparr>out = [], logged = [], status = Some IndexError\<rparr>"
    using t by blast
  have b: "out (write_summary_file flow_names dumps_names empty_doc_fs [''b.json'', ''a.json''] 1) = []"
    using t [where result_json_paths = "[''b.json'', ''a.json'']"] e
    by (metis list.set_intros(1,2))
  have c: "write_summary_file flow_names dumps_names empty_doc_fs [''a.json'', ''b.json''] 1
     = \<lparr>out = [], logged = [], status = Some IndexError\<rparr>"
    using t [where result_json_paths = "[''a.json'', ''b.json'']"] e l
    by (metis append_Nil)
  from a b c show ?thesis by simp
qed

text \<open>
  The claim as stated fails: a missing path before the empty document makes the call
  return normally, with the missing path logged and no access to a first record.
\<close>

theorem empty_doc_after_missing_path_counterexample:
  "write_summary_file flow_names dumps_names empty_doc_fs [''b.json'', ''a.json''] 1
     = \<lparr>out = [], logged = [''b.json''], status = None\<rparr>"
  by code_simp

section \<open>Ablated features\<close>

lemma summary_rows_nth:
  "k < length (fst (write_summary_rows yl jd ab feats header ds)) \<Longrightarrow>
     k < length ds \<and>
     (\<exists>d'. ablate yl jd ab feats (ds ! k) = Inr d' \<and>
           fst (write_summary_rows yl jd ab feats header ds) ! k = dict_to_list header d')"
proof (induction ds arbitrary: k)
  case Nil
  then show ?case by simp
next
  case (Cons d ds)
  show ?case
  proof (cases "ablate yl jd ab feats d")
    case (Inl e)
    with Cons.prems show ?thesis by simp
  next
    case (Inr d')
    show ?thesis
    proof (cases k)
      case 0
      with Inr show ?thesis
        by (cases "write_summary_rows yl jd ab feats header ds") simp
    next
      case (Suc j)
      with Cons.prems Inr have "j < length (fst (write_summary_rows yl jd ab feats header ds))"
        by (cases "write_summary_rows yl jd ab feats header ds") simp
      from Cons.IH [OF this] Suc Inr show ?thesis
        by (cases "write_summary_rows yl jd ab feats header ds") simp
    qed
  qed
qed

lemma ablate_child:
  assumes "ab \<noteq> 0" and "map_of d ''featureset_name'' = Some (JStr s)"
    and "ablate yl jd ab feats d = Inr d'"
  shows "\<exists>v fl. map_of d ''featureset'' = Some v \<and> yl v = Inr fl \<and>
           d' = AList.update ''ablated_features''
                  (if feats (split_first marker s) - set fl = {} then JStr []
                   else JStr (jd (sorted_list_of_set (feats (split_first marker s) - set fl)))) d"
proof -
  from assms obtain v where v: "map_of d ''featureset'' = Some v"
    by (cases "map_of d ''featureset''") (simp_all add: ablate_def getitem_def)
  from assms v obtain fl where fl: "yl v = Inr fl"
    by (cases "yl v") (simp_all add: ablate_def getitem_def)
  from assms v fl show ?thesis
    by (simp add: ablate_def getitem_def Let_def)
qed

section \<open>The feature union of the loading loop\<close>

lemma note_features_effect:
  assumes "ab \<noteq> 0" and "fs p = Some (Doc obj)"
    and "note_features yl ab obj feats0 = Inr feats1"
  shows "feats1 parent = feats0 parent \<union> first_record_features yl fs parent p"
proof (cases obj)
  case Nil
  with assms show ?thesis by (simp add: note_features_def)
next
  case (Cons first others)
  show ?thesis
  proof (cases "map_of first ''featureset_name''")
    case None
    with assms Cons show ?thesis by (simp add: note_features_def getitem_def)
  next
    case (Some name)
    show ?thesis
    proof (cases name)
      case (JStr s)
      show ?thesis
      proof (cases "contains marker s")
        case False
        with assms Cons Some JStr show ?thesis
          by (simp add: note_features_def getitem_def first_record_features_def)
      next
        case True
        from assms Cons Some JStr True obtain v where v: "map_of first ''featureset'' = Some v"
          by (cases "map_of first ''featureset''") (simp_all add: note_features_def getitem_def)
        from assms Cons Some JStr True v obtain fl where fl: "yl v = Inr fl"
          by (cases "yl v") (simp_all add: note_features_def getitem_def)
        from assms Cons Some JStr True v fl show ?thesis
          by (auto simp: note_features_def getitem_def first_record_features_def)
      qed
    next
      case (JArr xs)
      with assms Cons Some show ?thesis
        by (auto simp: note_features_def getitem_def first_record_features_def split: if_splits)
    next
      case (JObj kvs)
      with assms Cons Some show ?thesis
        by (auto simp: note_features_def getitem_def first_record_features_def split: if_splits)
    qed (use assms Cons Some in \<open>simp_all add: note_features_def getitem_def\<close>)
  qed
qed

lemma load_summary_features:
  "ab \<noteq> 0 \<Longrightarrow> load_summary_results yl fs ab ps (acc, feats0) = Done (lrds, feats) \<Longrightarrow>
     feats parent = feats0 parent \<union> (\<Union>p \<in> set ps. first_record_features yl fs parent p)"
proof (induction ps arbitrary: acc feats0)
  case Nil
  then show ?case by simp
next
  case (Cons p ps)
  from Cons.prems(2) obtain obj where obj: "fs p = Some (Doc obj)"
    by (cases "fs p") (auto split: result_file.splits)
  with Cons.prems(2) obtain feats1 where n: "note_features yl ab obj feats0 = Inr feats1"
    and rest: "load_summary_results yl fs ab ps (acc @ obj, feats1) = Done (lrds, feats)"
    by (cases "note_features yl ab obj feats0") simp_all
  from Cons.IH [OF Cons.prems(1) rest] note_features_effect [where fs = fs and yl = yl and parent = parent, OF Cons.prems(1) obj n]
  show ?case by auto
qed

lemma load_summary_records:
  "load_summary_results yl fs ab ps (acc, feats0) = Done (lrds, feats) \<Longrightarrow>
     lrds = acc @ concat (map (records_at fs) ps)"
proof (induction ps arbitrary: acc feats0)
  case Nil
  then show ?case by simp
next
  case (Cons p ps)
  from Cons.prems obtain obj where obj: "fs p = Some (Doc obj)"
    by (cases "fs p") (auto split: result_file.splits)
  with Cons.prems obtain feats1 where
    rest: "load_summary_results yl fs ab ps (acc @ obj, feats1) = Done (lrds, feats)"
    by (cases "note_features yl ab obj feats0") simp_all
  from Cons.IH [OF rest] obj show ?case
    by (simp add: records_at_def)
qed

lemma uniform_file_covers:
  assumes "uniform_file fs p" and "r \<in> set (records_at fs p)"
    and "map_of r ''featureset_name'' = Some (JStr s)" and "contains marker s"
    and "map_of r ''featureset'' = Some v" and "yl v = Inr fl"
  shows "first_record_features yl fs (split_first marker s) p = set fl"
proof -
  from assms(2) obtain first others where obj: "fs p = Some (Doc (first # others))"
    by (cases "fs p"; cases "the (fs p)"; cases "records_at fs p")
       (auto simp: records_at_def)
  then have hd: "hd (records_at fs p) = first"
    by (simp add: records_at_def)
  from assms(1,2) have "map_of r ''featureset_name'' = map_of first ''featureset_name''"
    and "map_of r ''featureset'' = map_of first ''featureset''"
    unfolding uniform_file_def hd by (auto simp: list_all_iff)
  with assms(3-6) obj show ?thesis
    by (simp add: first_record_features_def)
qed

text \<open>
  C3 (as amended). In an ablation-enabled run whose files load, the feature set kept for
  a parent is the union, over the input files, of the decoded features of each file's
  first record that is an ablation child of the parent; no other record is read for it.
  So it contains the features of every loaded child record when every file is uniform,
  that is, when the records of a file share the first record's featureset name and
  feature list.
\<close>

theorem feature_union_of_first_records:
  assumes "ablation \<noteq> 0"
    and "load_summary_results yaml_load fs ablation result_json_paths ([], \<lambda>_. {})
           = Done (learner_result_dicts, all_features)"
  shows "(\<forall>parent. all_features parent
            = (\<Union>p \<in> set result_json_paths. first_record_features yaml_load fs parent p)) \<and>
         ((\<forall>p \<in> set result_json_paths. uniform_file fs p) \<longrightarrow>
          (\<forall>r \<in> set learner_result_dicts. \<forall>s v features.
             map_of r ''featureset_name'' = Some (JStr s) \<and> contains marker s \<and>
             map_of r ''featureset'' = Some v \<and> yaml_load v = Inr features \<longrightarrow>
             set features \<subseteq> all_features (split_first marker s)))"
proof -
  have u: "all_features parent
            = (\<Union>p \<in> set result_json_paths. first_record_features yaml_load fs parent p)"
    for parent
    using load_summary_features [OF assms, of parent] by simp
  have recs: "learner_result_dicts = concat (map (records_at fs) result_json_paths)"
    using load_summary_records [OF assms(2)] by simp
  have cov: "set features \<subseteq> all_features (split_first marker s)"
    if uni: "\<forall>p \<in> set result_json_paths. uniform_file fs p"
      and r: "r \<in> set learner_result_dicts"
      and f: "map_of r ''featureset_name'' = Some (JStr s)" "contains marker s"
             "map_of r ''featureset'' = Some v" "yaml_load v = Inr features"
    for r s v features
  proof -
    from r recs obtain p where p: "p \<in> set result_json_paths" and rp: "r \<in> set (records_at fs p)"
      by auto
    from uni p have "uniform_file fs p" by blast
    from uniform_file_covers [where fs = fs and yl = yaml_load, OF this rp f]
    have eq: "first_record_features yaml_load fs (split_first marker s) p = set features" .
    have "first_record_features yaml_load fs (split_first marker s) p
            \<subseteq> (\<Union>p \<in> set result_json_paths.
                  first_record_features yaml_load fs (split_first marker s) p)"
      using p by (rule UN_upper)
    then show ?thesis
      unfolding u eq .
  qed
  show ?thesis
  proof (intro conjI allI impI ballI)
    fix parent
    show "all_features parent
            = (\<Union>p \<in> set result_json_paths. first_record_features yaml_load fs parent p)"
      by (rule u)
  next
    fix r s v features
    assume uni: "\<forall>p \<in> set result_json_paths. uniform_file fs p"
      and r: "r \<in> set learner_result_dicts"
      and f: "map_of r ''featureset_name'' = Some (JStr s) \<and> contains marker s \<and>
              map_of r ''featureset'' = Some v \<and> yaml_load v = Inr features"
    from f have f1: "map_of r ''featureset_name'' = Some (JStr s)"
      and f2: "contains marker s"
      and f3: "map_of r ''featureset'' = Some v"
      and f4: "yaml_load v = Inr features"
      by simp_all
    show "set features \<subseteq> all_features (split_first marker s)"
      by (rule cov [OF uni r f1 f2 f3 f4])
  qed
qed

theorem feature_union_of_first_records_witness:
  "((\<lambda>_. {})(''A'' := {''f1'', ''f2''})) ''A''
     = (\<Union>p \<in> set [''a.json'', ''b.json'', ''c.json''].
          first_record_features flow_names example_summary_fs ''A'' p) \<and>
   set [''f2''] \<subseteq> ((\<lambda>_. {})(''A'' := {''f1'', ''f2''})) (split_first marker ''A_minus_f1'')"
proof -
  have one: "(1::int) \<noteq> 0"
    by simp
  have ld: "load_summary_results flow_names example_summary_fs 1
              [''a.json'', ''b.json'', ''c.json''] ([], \<lambda>_. {})
            = Done ([parent_record, child_record, other_child_record],
                    (\<lambda>_. {})(''A'' := {''f1'', ''f2''}))"
    by (simp add: example_summary_fs_def note_features_def parent_record_def child_record_def
          other_child_record_def getitem_def marker_def insert_commute)
  note t = feature_union_of_first_records [OF one ld]
  have uni: "\<forall>p \<in> set [''a.json'', ''b.json'', ''c.json'']. uniform_file example_summary_fs p"
    by (simp add: uniform_file_def records_at_def example_summary_fs_def)
  have r: "child_record \<in> set [parent_record, child_record, other_child_record]"
    by simp
  have nm: "map_of child_record ''featureset_name'' = Some (JStr ''A_minus_f1'')"
    and ft: "map_of child_record ''featureset'' = Some (JStr ''[f2]'')"
    by (simp_all add: child_record_def)
  have mk: "contains marker ''A_minus_f1''"
    by (simp add: marker_def)
  have dec: "flow_names (JStr ''[f2]'') = Inr [''f2'']"
    by simp
  from t have a: "((\<lambda>_. {})(''A'' := {''f1'', ''f2''})) ''A''
     = (\<Union>p \<in> set [''a.json'', ''b.json'', ''c.json''].
          first_record_features flow_names example_summary_fs ''A'' p)"
    by blast
  from t uni r nm ft mk dec
  have b: "set [''f2''] \<subseteq> ((\<lambda>_. {})(''A'' := {''f1'', ''f2''})) (split_first marker ''A_minus_f1'')"
    by blast
  from a b show ?thesis by (rule conjI)
qed

text \<open>
  The claim as stated fails: the second record of the file is an ablation child of
  \<open>A\<close> with feature \<open>f2\<close>; it is loaded and written, yet the feature set of \<open>A\<close> stays
  empty.
\<close>

theorem feature_union_misses_later_records_counterexample:
  "ablation_feature_set flow_names mixed_fs 1 [''m.json''] ''A'' = {} \<and>
   write_summary_file flow_names dumps_names mixed_fs [''m.json''] 1 =
     \<lparr>out = [[JStr ''ablated_features'', JStr ''featureset'', JStr ''featureset_name''],
             [JStr [], JStr ''[f1]'', JStr ''B''],
             [JStr [], JStr ''[f2]'', JStr ''A_minus_f1'']],
      logged = [], status = None\<rparr>"
  by code_simp

section \<open>Ablated features of a row\<close>

lemma child_features_cong:
  "map_of r ''featureset_name'' = map_of r' ''featureset_name'' \<Longrightarrow>
   map_of r ''featureset'' = map_of r' ''featureset'' \<Longrightarrow>
     child_features yl parent r = child_features yl parent r'"
  by (simp add: child_features_def split: option.splits json.splits)

lemma first_record_features_hd:
  "first_record_features yl fs parent p =
     (case records_at fs p of [] \<Rightarrow> {} | first # others \<Rightarrow> child_features yl parent first)"
  by (simp add: first_record_features_def records_at_def child_features_def
        split: option.splits result_file.splits list.splits)

lemma first_records_in_union:
  assumes "lrds = concat (map (records_at fs) ps)"
  shows "(\<Union>p \<in> set ps. first_record_features yl fs parent p) \<subseteq> ever_seen_union yl lrds parent"
proof
  fix x
  assume "x \<in> (\<Union>p \<in> set ps. first_record_features yl fs parent p)"
  then obtain p where p: "p \<in> set ps" and x: "x \<in> first_record_features yl fs parent p"
    by blast
  from x obtain first others where ra: "records_at fs p = first # others"
    and xf: "x \<in> child_features yl parent first"
    unfolding first_record_features_hd by (cases "records_at fs p") simp_all
  from ra p assms have "first \<in> set lrds"
    by force
  with xf show "x \<in> ever_seen_union yl lrds parent"
    unfolding ever_seen_union_def by blast
qed

lemma union_in_first_records:
  assumes "lrds = concat (map (records_at fs) ps)" and "\<forall>p \<in> set ps. uniform_file fs p"
  shows "ever_seen_union yl lrds parent \<subseteq> (\<Union>p \<in> set ps. first_record_features yl fs parent p)"
proof
  fix x
  assume "x \<in> ever_seen_union yl lrds parent"
  then obtain r where r: "r \<in> set lrds" and x: "x \<in> child_features yl parent r"
    unfolding ever_seen_union_def by blast
  from r assms(1) obtain p where p: "p \<in> set ps" and rp: "r \<in> set (records_at fs p)"
    by auto
  from rp obtain first others where ra: "records_at fs p = first # others"
    by (cases "records_at fs p") simp_all
  from assms(2) p have "uniform_file fs p" by blast
  with rp ra have "map_of r ''featureset_name'' = map_of first ''featureset_name''"
    and "map_of r ''featureset'' = map_of first ''featureset''"
    unfolding uniform_file_def by (auto simp: list_all_iff)
  then have "child_features yl parent r = child_features yl parent first"
    by (rule child_features_cong)
  with x ra have "x \<in> first_record_features yl fs parent p"
    unfolding first_record_features_hd by simp
  with p show "x \<in> (\<Union>p \<in> set ps. first_record_features yl fs parent p)"
    by blast
qed


text \<open>
  C2 (as amended). In an ablation-enabled summary run, take an emitted row whose
  featureset name contains the marker \<open>_minus_\<close>. Its \<open>featureset\<close> field decodes, and
  its \<open>ablated_features\<close> cell holds the serialisation of the sorted difference between
  the feature set the loading loop accumulated for its parent and its own features, or
  the empty string when that difference is empty. The accumulated set is the union of the
  decoded features of the first records of the input files that are ablation children of
  the parent. It is the union ever seen across all loaded ablation children of the parent
  when every input file is uniform.
\<close>

theorem ablated_features_of_row:
  assumes "ablation \<noteq> 0"
    and "load_summary_results yaml_load fs ablation result_json_paths ([], \<lambda>_. {})
           = Done (learner_result_dicts, all_features)"
    and "Suc k < length (out (write_summary_file yaml_load json_dumps fs result_json_paths ablation))"
    and "map_of (learner_result_dicts ! k) ''featureset_name'' = Some (JStr s)"
    and "contains marker s"
  shows "\<exists>header v features.
           out (write_summary_file yaml_load json_dumps fs result_json_paths ablation) ! 0
             = map JStr header \<and>
           map_of (learner_result_dicts ! k) ''featureset'' = Some v \<and>
           yaml_load v = Inr features \<and>
           all_features (split_first marker s)
             = (\<Union>p \<in> set result_json_paths.
                  first_record_features yaml_load fs (split_first marker s) p) \<and>
           cell header
             (out (write_summary_file yaml_load json_dumps fs result_json_paths ablation) ! Suc k)
             ''ablated_features''
             = Some (if (\<Union>p \<in> set result_json_paths.
                           first_record_features yaml_load fs (split_first marker s) p)
                          - set features = {}
                     then JStr []
                     else JStr (json_dumps (sorted_list_of_set
                            ((\<Union>p \<in> set result_json_paths.
                                 first_record_features yaml_load fs (split_first marker s) p)
                               - set features)))) \<and>
           ((\<forall>p \<in> set result_json_paths. uniform_file fs p) \<longrightarrow>
              (\<Union>p \<in> set result_json_paths.
                  first_record_features yaml_load fs (split_first marker s) p)
                = ever_seen_union yaml_load learner_result_dicts (split_first marker s))"
proof -
  let ?run = "write_summary_file yaml_load json_dumps fs result_json_paths ablation"
  let ?U = "\<Union>p \<in> set result_json_paths.
              first_record_features yaml_load fs (split_first marker s) p"
  from assms(2,3) obtain first others where ne: "learner_result_dicts = first # others"
    by (cases learner_result_dicts) (simp_all add: write_summary_file_def)
  let ?header = "summary_header ablation first"
  let ?body = "fst (write_summary_rows yaml_load json_dumps ablation all_features ?header
                      learner_result_dicts)"
  have outr: "out ?run = map JStr ?header # ?body"
    using assms(2) ne
    by (simp add: write_summary_file_def Let_def case_prod_beta del: write_summary_rows.simps)
  with assms(3) have k: "k < length ?body" by simp
  from summary_rows_nth [OF k] obtain d' where
    d': "ablate yaml_load json_dumps ablation all_features (learner_result_dicts ! k) = Inr d'"
    and row: "?body ! k = dict_to_list ?header d'"
    by blast
  from ablate_child [OF assms(1,4) d'] obtain v features where
    v: "map_of (learner_result_dicts ! k) ''featureset'' = Some v"
    and fl: "yaml_load v = Inr features"
    and upd: "d' = AList.update ''ablated_features''
                  (if all_features (split_first marker s) - set features = {} then JStr []
                   else JStr (json_dumps (sorted_list_of_set
                               (all_features (split_first marker s) - set features))))
                  (learner_result_dicts ! k)"
    by blast
  have acc: "all_features (split_first marker s) = ?U"
    using load_summary_features [OF assms(1,2), of "split_first marker s"] by simp
  have hd: "distinct ?header"
    using summary_header_props [of ablation first] by blast
  have "set ?header = (set (map fst first) - {''result_table'', ''descriptive''})
                        \<union> {''ablated_features''}"
    using summary_header_props [of ablation first] assms(1) by simp
  then have mem: "''ablated_features'' \<in> set ?header"
    by simp
  have c: "cell ?header (?body ! k) ''ablated_features''
          = Some (if ?U - set features = {} then JStr []
                  else JStr (json_dumps (sorted_list_of_set (?U - set features))))"
    unfolding acc [symmetric]
    by (simp add: row cell_dict_to_list [OF hd mem] upd update_conv')
  have recs: "learner_result_dicts = concat (map (records_at fs) result_json_paths)"
    using load_summary_records [OF assms(2)] by simp
  have uni: "?U = ever_seen_union yaml_load learner_result_dicts (split_first marker s)"
    if "\<forall>p \<in> set result_json_paths. uniform_file fs p"
    using first_records_in_union [OF recs, of yaml_load "split_first marker s"]
      union_in_first_records [OF recs that, of yaml_load "split_first marker s"]
    by (rule subset_antisym)
  have h0: "out ?run ! 0 = map JStr ?header"
    unfolding outr by simp
  have c': "cell ?header (out ?run ! Suc k) ''ablated_features''
          = Some (if ?U - set features = {} then JStr []
                  else JStr (json_dumps (sorted_list_of_set (?U - set features))))"
    unfolding outr using c by simp
  have uni': "(\<forall>p \<in> set result_json_paths. uniform_file fs p) \<longrightarrow>
                ?U = ever_seen_union yaml_load learner_result_dicts (split_first marker s)"
    using uni by (rule impI)
  show ?thesis
    by (rule exI [of _ ?header], rule exI [of _ v], rule exI [of _ features])
       (intro conjI h0 v fl acc c' uni')
qed


theorem ablated_features_of_row_witness:
  "\<exists>header.
     out (write_summary_file flow_names dumps_names example_summary_fs
            [''a.json'', ''b.json'', ''c.json''] 1) ! 0 = map JStr header \<and>
     cell header
       (out (write_summary_file flow_names dumps_names example_summary_fs
               [''a.json'', ''b.json'', ''c.json''] 1) ! Suc 1)
       ''ablated_features'' = Some (JStr (dumps_names [''f1''])) \<and>
     (\<Union>p \<in> set [''a.json'', ''b.json'', ''c.json''].
         first_record_features flow_names example_summary_fs ''A'' p)
       = ever_seen_union flow_names [parent_record, child_record, other_child_record] ''A''"
proof -
  let ?U = "\<Union>p \<in> set [''a.json'', ''b.json'', ''c.json''].
              first_record_features flow_names example_summary_fs ''A'' p"
  have ld: "load_summary_results flow_names example_summary_fs 1
              [''a.json'', ''b.json'', ''c.json''] ([], \<lambda>_. {})
            = Done ([parent_record, child_record, other_child_record],
                    (\<lambda>_. {})(''A'' := {''f1'', ''f2''}))"
    by (simp add: example_summary_fs_def note_features_def parent_record_def child_record_def
          other_child_record_def getitem_def marker_def insert_commute)
  have len: "Suc 1 < length (out (write_summary_file flow_names dumps_names example_summary_fs
                                     [''a.json'', ''b.json'', ''c.json''] 1))"
    by code_simp
  have nm: "map_of ([parent_record, child_record, other_child_record] ! 1) ''featureset_name''
              = Some (JStr ''A_minus_f1'')"
    by (simp add: child_record_def)
  have mk: "contains marker ''A_minus_f1''"
    by (simp add: marker_def)
  have fs: "map_of ([parent_record, child_record, other_child_record] ! 1) ''featureset''
              = Some (JStr ''[f2]'')"
    by (simp add: child_record_def)
  have dec: "flow_names (JStr ''[f2]'') = Inr [''f2'']"
    by simp
  have par: "split_first marker ''A_minus_f1'' = ''A''"
    by (simp add: marker_def)
  have df: "{''f1'', ''f2''} - set [''f2''] = {''f1''}"
    by auto
  have one: "(1::int) \<noteq> 0"
    by simp
  have uni: "\<forall>p \<in> set [''a.json'', ''b.json'', ''c.json'']. uniform_file example_summary_fs p"
    by (simp add: uniform_file_def records_at_def example_summary_fs_def)
  from ablated_features_of_row [where json_dumps = dumps_names, OF one ld len nm mk, unfolded par]
  obtain header v features where
    h: "out (write_summary_file flow_names dumps_names example_summary_fs
               [''a.json'', ''b.json'', ''c.json''] 1) ! 0 = map JStr header"
    and v: "map_of ([parent_record, child_record, other_child_record] ! 1) ''featureset'' = Some v"
    and f: "flow_names v = Inr features"
    and acc: "((\<lambda>_. {})(''A'' := {''f1'', ''f2''})) ''A'' = ?U"
    and c: "cell header
       (out (write_summary_file flow_names dumps_names example_summary_fs
               [''a.json'', ''b.json'', ''c.json''] 1) ! Suc 1)
       ''ablated_features''
       = Some (if ?U - set features = {} then JStr []
               else JStr (dumps_names (sorted_list_of_set (?U - set features))))"
    and u: "(\<forall>p \<in> set [''a.json'', ''b.json'', ''c.json'']. uniform_file example_summary_fs p) \<longrightarrow>
              ?U = ever_seen_union flow_names [parent_record, child_record, other_child_record] ''A''"
    by (elim exE conjE) (rule that; assumption)
  from v fs have "v = JStr ''[f2]''" by simp
  with f dec have fe: "features = [''f2'']" by simp
  from acc have U: "?U = {''f1'', ''f2''}" by simp
  from c [unfolded fe U df] have cc: "cell header
       (out (write_summary_file flow_names dumps_names example_summary_fs
               [''a.json'', ''b.json'', ''c.json''] 1) ! Suc 1)
       ''ablated_features'' = Some (JStr (dumps_names [''f1'']))"
    by simp
  from u uni have uu: "?U = ever_seen_union flow_names
                              [parent_record, child_record, other_child_record] ''A''"
    by (rule mp)
  show ?thesis
    by (rule exI [of _ header]) (intro conjI h cc uu)
qed

text \<open>
  The claim as stated fails. When one file holds both children of \<open>A\<close>, only the first
  is read for the union: the row of \<open>A_minus_f1\<close> gets the empty string although the
  features ever seen across the children of \<open>A\<close>, less its own, leave \<open>f1\<close>. And with
  the parent \<open>A\<close> and the single child \<open>A_minus_f1\<close> in one file each, the child's row
  gets the empty string too, the record of the parent itself never being unioned.
\<close>

theorem ablated_features_miss_unseen_children_counterexample:
  "out (write_summary_file flow_names dumps_names siblings_fs [''s.json''] 1) ! Suc 0
     = [JStr [], JStr ''[f2]'', JStr ''A_minus_f1'', JNum 0.25] \<and>
   ever_seen_union flow_names [child_record, other_child_record] ''A'' - set [''f2''] = {''f1''} \<and>
   out (write_summary_file flow_names dumps_names example_summary_fs [''a.json'', ''b.json''] 1)
       ! Suc (Suc 0)
     = [JStr [], JStr ''[f2]'', JStr ''A_minus_f1'', JNum 0.25]"
  by code_simp

section \<open>Axis ranges of a metric\<close>

lemma bit_length_nonpos: "n \<le> 0 \<Longrightarrow> bit_length n = 0"
  by (subst bit_length.simps) simp

lemma bit_length_pos: "0 < n \<Longrightarrow> bit_length n = 1 + bit_length (n div 2)"
  by (subst bit_length.simps) simp

lemma bit_length_ge0: "0 \<le> bit_length n"
proof (induction n rule: bit_length.induct)
  case (1 n)
  then show ?case
    by (cases "n \<le> 0") (simp_all add: bit_length_nonpos bit_length_pos)
qed

lemma bit_length_bounds:
  "0 < n \<Longrightarrow> 2 ^ nat (bit_length n - 1) \<le> n \<and> n < 2 ^ nat (bit_length n)"
proof (induction n rule: bit_length.induct)
  case (1 n)
  show ?case
  proof (cases "n = 1")
    case True
    then show ?thesis
      by (simp add: bit_length_pos bit_length_nonpos)
  next
    case False
    with "1.prems" have h: "0 < n div 2" by simp
    from "1.prems" have np: "\<not> n \<le> 0" by simp
    from "1.IH" [OF np h] have lo: "2 ^ nat (bit_length (n div 2) - 1) \<le> n div 2"
      and hi: "n div 2 < 2 ^ nat (bit_length (n div 2))"
      by simp_all
    have b1: "1 \<le> bit_length (n div 2)"
      using bit_length_pos [OF h] bit_length_ge0 [of "n div 2 div 2"] by simp
    have bl: "bit_length n = 1 + bit_length (n div 2)"
      by (rule bit_length_pos [OF "1.prems"])
    have e1: "nat (bit_length n - 1) = Suc (nat (bit_length (n div 2) - 1))"
      using b1 bl by simp
    have e2: "nat (bit_length n) = Suc (nat (bit_length (n div 2)))"
      using b1 bl by simp
    have "2 * (n div 2) \<le> n" by simp
    with lo have a: "2 ^ nat (bit_length n - 1) \<le> n"
      unfolding e1 by simp
    have "n < 2 * (n div 2) + 2" by simp
    with hi have b: "n < 2 ^ nat (bit_length n)"
      unfolding e2 by simp
    from a b show ?thesis ..
  qed
qed

lemma bit_length_pos_ge1: "0 < n \<Longrightarrow> 1 \<le> bit_length n"
  using bit_length_pos [of n] bit_length_ge0 [of "n div 2"] by simp

lemma exponent_bounds:
  assumes "x \<noteq> 0"
  shows "2 powi exponent x \<le> \<bar>x\<bar>" and "\<bar>x\<bar> < 2 powi (exponent x + 1)"
proof -
  have "2 powi exponent x \<le> \<bar>x\<bar> \<and> \<bar>x\<bar> < 2 powi (exponent x + 1)"
  proof (cases "1 \<le> \<bar>x\<bar>")
    case True
    let ?n = "\<lfloor>\<bar>x\<bar>\<rfloor>"
    from True have n: "0 < ?n" by simp
    have e: "exponent x = bit_length ?n - 1"
      using True by (simp add: exponent_def)
    from bit_length_pos_ge1 [OF n] have b: "1 \<le> bit_length ?n" .
    from bit_length_bounds [OF n] have lo: "2 ^ nat (bit_length ?n - 1) \<le> ?n"
      and hi: "?n < 2 ^ nat (bit_length ?n)" by simp_all
    have p1: "(2::real) powi (bit_length ?n - 1) = 2 ^ nat (bit_length ?n - 1)"
      using b by (simp add: power_int_def)
    have p2: "(2::real) powi (bit_length ?n - 1 + 1) = 2 ^ nat (bit_length ?n)"
      using b by (simp add: power_int_def)
    from lo have "(2::real) ^ nat (bit_length ?n - 1) \<le> of_int ?n"
      by (metis of_int_le_iff of_int_numeral of_int_power)
    also have "\<dots> \<le> \<bar>x\<bar>" by simp
    finally have a: "2 powi exponent x \<le> \<bar>x\<bar>"
      unfolding e p1 .
    from hi have "?n + 1 \<le> 2 ^ nat (bit_length ?n)" by simp
    then have "of_int (?n + 1) \<le> (2::real) ^ nat (bit_length ?n)"
      by (metis of_int_le_iff of_int_numeral of_int_power)
    moreover have "\<bar>x\<bar> < of_int (?n + 1)" by linarith
    ultimately have "\<bar>x\<bar> < 2 powi (exponent x + 1)"
      unfolding e p2 by linarith
    with a show ?thesis ..
  next
    case False
    let ?y = "1 / \<bar>x\<bar>"
    let ?n = "\<lceil>?y\<rceil> - 1"
    from False assms have x1: "0 < \<bar>x\<bar>" "\<bar>x\<bar> < 1" by simp_all
    then have y1: "1 < ?y" by simp
    then have n: "0 < ?n" by linarith
    have e: "exponent x = - bit_length ?n"
      using False by (simp add: exponent_def)
    from bit_length_pos_ge1 [OF n] have b: "1 \<le> bit_length ?n" .
    from bit_length_bounds [OF n] have lo: "2 ^ nat (bit_length ?n - 1) \<le> ?n"
      and hi: "?n < 2 ^ nat (bit_length ?n)" by simp_all
    have p1: "(2::real) powi (- bit_length ?n) = 1 / 2 ^ nat (bit_length ?n)"
      using b by (simp add: power_int_def field_simps)
    have p2: "(2::real) powi (- bit_length ?n + 1) = 1 / 2 ^ nat (bit_length ?n - 1)"
      using b by (simp add: power_int_def field_simps power_inverse nat_diff_distrib')
    from hi have "?n + 1 \<le> 2 ^ nat (bit_length ?n)" by simp
    then have "of_int (?n + 1) \<le> (2::real) ^ nat (bit_length ?n)"
      by (metis of_int_le_iff of_int_numeral of_int_power)
    moreover have "?y \<le> of_int (?n + 1)" by simp
    ultimately have "?y \<le> 2 ^ nat (bit_length ?n)" by linarith
    with x1 have a: "2 powi exponent x \<le> \<bar>x\<bar>"
      unfolding e p1 by (simp add: field_simps)
    from lo have "(2::real) ^ nat (bit_length ?n - 1) \<le> of_int ?n"
      by (metis of_int_le_iff of_int_numeral of_int_power)
    moreover have "of_int ?n < ?y" by linarith
    ultimately have "2 ^ nat (bit_length ?n - 1) < ?y" by linarith
    with x1 have "\<bar>x\<bar> < 2 powi (exponent x + 1)"
      unfolding e p2 by (simp add: field_simps)
    with a show ?thesis ..
  qed
  then show "2 powi exponent x \<le> \<bar>x\<bar>" and "\<bar>x\<bar> < 2 powi (exponent x + 1)"
    by simp_all
qed

lemma round_half_even_int: "round_half_even (of_int k) = k"
  by (simp add: round_half_even_def)

lemma round_half_even_nonneg: "0 \<le> q \<Longrightarrow> 0 \<le> round_half_even q"
  by (simp add: round_half_even_def Let_def)

lemma round_half_even_le_int: "q \<le> of_int k \<Longrightarrow> round_half_even q \<le> k"
  unfolding round_half_even_def Let_def
  by (auto simp: floor_le_iff)

lemma to_double_negative:
  assumes "x < 0"
  shows "to_double x = NInf \<or> (\<exists>y. y \<le> 0 \<and> to_double x = Finite y)"
proof -
  let ?e = "max (exponent x - 52) (- 1074)"
  let ?y = "of_int (round_half_even (\<bar>x\<bar> / 2 powi ?e)) * (2::real) powi ?e"
  have "0 \<le> \<bar>x\<bar> / 2 powi ?e" by simp
  then have "0 \<le> round_half_even (\<bar>x\<bar> / 2 powi ?e)"
    by (rule round_half_even_nonneg)
  then have "0 \<le> ?y" by simp
  then show ?thesis
    using assms by (simp add: to_double_def Let_def)
qed

lemma power_two_le_D: "(2::real) powi a \<le> 2 powi b \<Longrightarrow> a \<le> b"
proof (rule ccontr)
  assume le: "(2::real) powi a \<le> 2 powi b" and "\<not> a \<le> b"
  then have "b < a" by simp
  then have "(2::real) powi b < 2 powi a"
    by (rule power_int_strict_increasing) simp
  with le show False by simp
qed

lemma power_two_split: "(2::real) powi (a + b) = 2 powi a * 2 powi b"
  by (rule power_int_add) simp

lemma power_two_nat: "0 \<le> a \<Longrightarrow> (2::real) powi a = of_int (2 ^ nat a)"
  by (simp add: power_int_def)

lemma exponent_minus: "exponent (- x) = exponent x"
  by (simp add: exponent_def)

lemma to_double_unfold:
  "x \<noteq> 0 \<Longrightarrow> e = max (exponent x - 52) (- 1074) \<Longrightarrow>
   Y = of_int (round_half_even (\<bar>x\<bar> / 2 powi e)) * 2 powi e \<Longrightarrow>
     to_double x = (if 2 ^ 1024 \<le> Y then (if x < 0 then NInf else PInf)
                    else Finite (if x < 0 then - Y else Y))"
  by (simp add: to_double_def Let_def)

lemma to_double_on_grid:
  assumes k: "0 < k" "k \<le> 2 ^ 53" and g: "- 1074 \<le> g"
    and x: "x = of_int k * 2 powi g" and lt: "x < 2 ^ 1024"
  shows "to_double x = Finite x" and "to_double (- x) = Finite (- x)"
proof -
  have p: "0 < (2::real) powi n" for n by simp
  from k(1) x have xpos: "0 < x" by simp
  then have xne: "x \<noteq> 0" and ax: "\<bar>x\<bar> = x" by simp_all
  define E where "E = exponent x"
  define e where "e = max (E - 52) (- 1074)"
  have "of_int k \<le> (2::real) ^ 53"
    using k(2) by (metis of_int_le_iff of_int_numeral of_int_power)
  then have "x \<le> 2 ^ 53 * 2 powi g"
    unfolding x using p [of g] by (simp add: mult_right_mono)
  also have "\<dots> = 2 powi (53 + g)"
    by (simp add: power_two_split)
  finally have xle: "x \<le> 2 powi (53 + g)" .
  from exponent_bounds(1) [OF xne] ax have lo: "2 powi E \<le> x"
    by (simp add: E_def)
  from lo xle have "(2::real) powi E \<le> 2 powi (53 + g)" by simp
  then have E_le: "E \<le> 53 + g" by (rule power_two_le_D)
  have "\<exists>j::int. x / 2 powi e = of_int j"
  proof (cases "E \<le> 52 + g")
    case True
    with g have eg: "e \<le> g" by (simp add: e_def)
    have "x / 2 powi e = of_int k * (2 powi g / 2 powi e)"
      unfolding x by simp
    also have "2 powi g / (2::real) powi e = 2 powi (g - e)"
      by (rule power_int_diff [symmetric]) simp
    also have "\<dots> = of_int (2 ^ nat (g - e))"
      using eg by (intro power_two_nat) simp
    finally have "x / 2 powi e = of_int (k * 2 ^ nat (g - e))"
      by simp
    then show ?thesis ..
  next
    case False
    with E_le have E: "E = 53 + g" by simp
    with g have e: "e = g + 1" by (simp add: e_def)
    from lo E have "2 powi (53 + g) \<le> x" by simp
    with xle have xe: "x = 2 powi (53 + g)" by simp
    have "x / 2 powi e = 2 powi (53 + g) / 2 powi (g + 1)"
      by (simp only: e xe)
    also have "\<dots> = 2 powi (53 + g - (g + 1))"
      by (rule power_int_diff [symmetric]) simp
    also have "\<dots> = of_int (2 ^ 52)"
      by (simp add: power_int_def)
    finally show ?thesis ..
  qed
  then obtain j :: int where j: "x / 2 powi e = of_int j" ..
  have r: "round_half_even (x / 2 powi e) = j"
    unfolding j by (rule round_half_even_int)
  have "of_int j * 2 powi e = x / 2 powi e * 2 powi e"
    unfolding j ..
  also have "\<dots> = x"
    by simp
  finally have y: "x = of_int (round_half_even (\<bar>x\<bar> / 2 powi e)) * 2 powi e"
    unfolding ax r by simp
  have e1: "e = max (exponent x - 52) (- 1074)"
    by (simp add: e_def E_def)
  from to_double_unfold [OF xne e1 y] xpos lt show "to_double x = Finite x"
    by simp
  have xne': "- x \<noteq> 0" using xne by simp
  have e2: "e = max (exponent (- x) - 52) (- 1074)"
    by (simp add: e_def E_def exponent_minus)
  have y': "x = of_int (round_half_even (\<bar>- x\<bar> / 2 powi e)) * 2 powi e"
    using y by simp
  from to_double_unfold [OF xne' e2 y'] xpos lt show "to_double (- x) = Finite (- x)"
    by simp
qed

lemma to_double_finite_shape:
  assumes "to_double x = Finite y"
  shows "y = 0 \<or> (\<exists>k g. 0 < k \<and> k \<le> 2 ^ 53 \<and> - 1074 \<le> g \<and>
                          \<bar>y\<bar> = of_int k * 2 powi g \<and> \<bar>y\<bar> < 2 ^ 1024)"
proof (cases "x = 0")
  case True
  with assms show ?thesis by (simp add: to_double_def)
next
  case False
  define e where "e = max (exponent x - 52) (- 1074)"
  define q where "q = \<bar>x\<bar> / 2 powi e"
  define m where "m = round_half_even q"
  define Y where "Y = of_int m * (2::real) powi e"
  have p: "0 < (2::real) powi n" for n by simp
  have Y': "Y = of_int (round_half_even (\<bar>x\<bar> / 2 powi e)) * 2 powi e"
    by (simp add: Y_def m_def q_def)
  from to_double_unfold [OF False e_def Y'] assms
  have fin: "\<not> 2 ^ 1024 \<le> Y" and y: "y = (if x < 0 then - Y else Y)"
    by (auto split: if_splits)
  have "0 \<le> q" by (simp add: q_def)
  then have m0: "0 \<le> m"
    unfolding m_def by (rule round_half_even_nonneg)
  then have Y0: "0 \<le> Y" by (simp add: Y_def)
  with y have ay: "\<bar>y\<bar> = Y" by simp
  have "\<bar>x\<bar> < 2 powi (exponent x + 1)"
    by (rule exponent_bounds(2) [OF False])
  also have "(2::real) powi (exponent x + 1) \<le> 2 powi (e + 53)"
    by (rule power_int_increasing) (simp_all add: e_def)
  also have "\<dots> = 2 powi e * 2 ^ 53"
    by (simp add: power_two_split)
  finally have "q < 2 ^ 53"
    unfolding q_def using p [of e] by (simp add: field_simps)
  then have "q \<le> of_int (2 ^ 53)" by simp
  then have m53: "m \<le> 2 ^ 53"
    unfolding m_def by (rule round_half_even_le_int)
  show ?thesis
  proof (cases "m = 0")
    case True
    with y show ?thesis by (simp add: Y_def)
  next
    case False
    with m0 have "0 < m" by simp
    moreover have "- 1074 \<le> e" by (simp add: e_def)
    moreover from fin have "\<bar>y\<bar> < 2 ^ 1024" unfolding ay by simp
    moreover have "\<bar>y\<bar> = of_int m * 2 powi e" unfolding ay Y_def ..
    ultimately show ?thesis
      using m53 by blast
  qed
qed

lemma to_double_zero: "to_double 0 = Finite 0"
  by (simp add: to_double_def)

lemma small_lt_huge: "(x::real) \<le> 2 ^ 53 \<Longrightarrow> x < 2 ^ 1024"
proof -
  assume "x \<le> 2 ^ 53"
  also have "(2::real) ^ 53 < 2 ^ 1024"
    by (rule power_strict_increasing) simp_all
  finally show ?thesis .
qed

lemma to_double_small_int:
  assumes "\<bar>n\<bar> \<le> 2 ^ 53"
  shows "to_double (of_int n) = Finite (of_int n)"
proof -
  consider "n = 0" | "0 < n" | "n < 0" by linarith
  then show ?thesis
  proof cases
    case 1
    then show ?thesis by (simp add: to_double_zero)
  next
    case 2
    with assms have le: "n \<le> 2 ^ 53" by simp
    then have "of_int n \<le> (2::real) ^ 53"
      by (metis of_int_le_iff of_int_numeral of_int_power)
    then have lt: "of_int n < (2::real) ^ 1024" by (rule small_lt_huge)
    have g: "- 1074 \<le> (0::int)" by simp
    have x: "of_int n = of_int n * (2::real) powi 0" by simp
    show ?thesis
      by (rule to_double_on_grid(1) [OF 2 le g x lt])
  next
    case 3
    then have pos: "0 < - n" by simp
    from 3 assms have le: "- n \<le> 2 ^ 53" by simp
    then have "of_int (- n) \<le> (2::real) ^ 53"
      by (metis of_int_le_iff of_int_numeral of_int_power)
    then have lt: "of_int (- n) < (2::real) ^ 1024" by (rule small_lt_huge)
    have g: "- 1074 \<le> (0::int)" by simp
    have x: "of_int (- n) = of_int (- n) * (2::real) powi 0" by simp
    have "to_double (- of_int (- n)) = Finite (- of_int (- n))"
      by (rule to_double_on_grid(2) [OF pos le g x lt])
    then show ?thesis by simp
  qed
qed

lemma int_near_double_exact:
  assumes "to_double x = Finite y" and "n = \<lfloor>y\<rfloor> \<or> n = \<lceil>y\<rceil>"
  shows "to_double (of_int n) = Finite (of_int n)"
proof -
  from to_double_finite_shape [OF assms(1)]
  consider "y = 0"
    | k g where "0 < k" "k \<le> 2 ^ 53" "- 1074 \<le> g" "\<bar>y\<bar> = of_int k * 2 powi g"
        "\<bar>y\<bar> < 2 ^ 1024"
    by blast
  then show ?thesis
  proof cases
    case 1
    with assms(2) show ?thesis by (auto simp: to_double_zero)
  next
    case (2 k g)
    show ?thesis
    proof (cases "0 \<le> g")
      case True
      then have pw: "(2::real) powi g = of_int (2 ^ nat g)"
        by (rule power_two_nat)
      have ay: "\<bar>y\<bar> = of_int (k * 2 ^ nat g)"
        unfolding 2(4) pw by simp
      show ?thesis
      proof (cases "0 \<le> y")
        case True
        with ay have yj: "y = of_int (k * 2 ^ nat g)" by simp
        with assms(2) have n: "of_int n = y" by auto
        from True have yy: "y = of_int k * 2 powi g" using 2(4) by simp
        from True 2(5) have "y < 2 ^ 1024" by simp
        from to_double_on_grid(1) [OF 2(1,2,3) yy this] show ?thesis
          unfolding n .
      next
        case False
        with ay have yj: "y = of_int (- (k * 2 ^ nat g))" by simp
        with assms(2) have n: "of_int n = y" by auto
        from False have yy: "- y = of_int k * 2 powi g" using 2(4) by simp
        from False 2(5) have "- y < 2 ^ 1024" by simp
        from to_double_on_grid(2) [OF 2(1,2,3) yy this] show ?thesis
          unfolding n by simp
      qed
    next
      case False
      then have "g < 0" by simp
      then have "(2::real) powi g \<le> 2 powi 0"
        by (intro power_int_increasing) simp_all
      then have "(2::real) powi g \<le> 1" by simp
      moreover have "0 < (of_int k :: real)" using 2(1) by simp
      ultimately have "of_int k * (2::real) powi g \<le> of_int k"
        by (simp add: mult_left_le)
      also have "(of_int k :: real) \<le> of_int (2 ^ 53)"
        using 2(2) by (subst of_int_le_iff)
      finally have "\<bar>y\<bar> \<le> of_int (2 ^ 53)"
        unfolding 2(4) .
      then have "- of_int (2 ^ 53) \<le> y" and "y \<le> of_int (2 ^ 53)"
        by linarith+
      then have fl: "- (2 ^ 53) \<le> \<lfloor>y\<rfloor>" and ce: "\<lceil>y\<rceil> \<le> 2 ^ 53"
        by (simp_all add: le_floor_iff ceiling_le_iff)
      have fc: "\<lfloor>y\<rfloor> \<le> \<lceil>y\<rceil>" by (rule floor_le_ceiling)
      have "- (2 ^ 53) \<le> n" and "n \<le> 2 ^ 53"
        using assms(2) fl ce fc by (elim disjE; linarith)+
      then have "\<bar>n\<bar> \<le> 2 ^ 53"
        by (intro abs_leI) linarith+
      then show ?thesis by (rule to_double_small_int)
    qed
  qed
qed

lemma fadd_finite_rounded: "fadd a b = Finite y \<Longrightarrow> \<exists>x. to_double x = Finite y"
  by (cases a; cases b) auto

lemma fsub_finite_rounded: "fsub a b = Finite y \<Longrightarrow> \<exists>x. to_double x = Finite y"
  unfolding fsub_def by (rule fadd_finite_rounded)

lemma int_to_float_exact:
  assumes "to_double x = Finite y" and "n = \<lfloor>y\<rfloor> \<or> n = \<lceil>y\<rceil>"
  shows "int_to_float n = Inr (Finite (of_int n))"
  by (simp add: int_to_float_def int_near_double_exact [OF assms])

lemma flt_chain:
  "a \<noteq> NaN \<Longrightarrow> b \<noteq> NaN \<Longrightarrow> c \<noteq> NaN \<Longrightarrow> flt a b \<Longrightarrow> \<not> flt c b \<Longrightarrow> flt a c"
  by (cases a; cases b; cases c) auto

lemma flt_trans: "flt a b \<Longrightarrow> flt b c \<Longrightarrow> flt a c"
  by (cases a; cases b; cases c) auto

lemma least_props:
  "NaN \<notin> set (m # xs) \<Longrightarrow>
     least m xs \<in> set (m # xs) \<and> (\<forall>y \<in> set (m # xs). \<not> flt y (least m xs))"
proof (induction xs arbitrary: m)
  case Nil
  then show ?case by (cases m) auto
next
  case (Cons x xs)
  let ?m = "if flt x m then x else m"
  let ?L = "least ?m xs"
  from Cons.prems have nn: "NaN \<notin> set (?m # xs)" by auto
  from Cons.IH [OF nn] have mem: "?L \<in> set (?m # xs)"
    and low: "\<forall>y \<in> set (?m # xs). \<not> flt y ?L" by simp_all
  from mem nn have Ln: "?L \<noteq> NaN" by metis
  from Cons.prems have mn: "m \<noteq> NaN" and xn: "x \<noteq> NaN" by auto
  from low have lm: "\<not> flt ?m ?L" by simp
  have "\<not> flt m ?L \<and> \<not> flt x ?L"
  proof (cases "flt x m")
    case True
    with lm have a: "\<not> flt x ?L" by simp
    have "\<not> flt m ?L"
    proof
      assume "flt m ?L"
      with True have "flt x ?L" by (rule flt_trans)
      with a show False ..
    qed
    with a show ?thesis by simp
  next
    case False
    with lm have a: "\<not> flt m ?L" by simp
    have "\<not> flt x ?L"
    proof
      assume "flt x ?L"
      from flt_chain [OF xn Ln mn this a] False show False by simp
    qed
    with a show ?thesis by simp
  qed
  with mem low show ?case by auto
qed

lemma greatest_props:
  "NaN \<notin> set (m # xs) \<Longrightarrow>
     greatest m xs \<in> set (m # xs) \<and> (\<forall>y \<in> set (m # xs). \<not> flt (greatest m xs) y)"
proof (induction xs arbitrary: m)
  case Nil
  then show ?case by (cases m) auto
next
  case (Cons x xs)
  let ?m = "if flt m x then x else m"
  let ?G = "greatest ?m xs"
  from Cons.prems have nn: "NaN \<notin> set (?m # xs)" by auto
  from Cons.IH [OF nn] have mem: "?G \<in> set (?m # xs)"
    and high: "\<forall>y \<in> set (?m # xs). \<not> flt ?G y" by simp_all
  from mem nn have Gn: "?G \<noteq> NaN" by metis
  from Cons.prems have mn: "m \<noteq> NaN" and xn: "x \<noteq> NaN" by auto
  from high have gm: "\<not> flt ?G ?m" by simp
  have "\<not> flt ?G m \<and> \<not> flt ?G x"
  proof (cases "flt m x")
    case True
    with gm have a: "\<not> flt ?G x" by simp
    have "\<not> flt ?G m"
    proof
      assume "flt ?G m"
      from this True have "flt ?G x" by (rule flt_trans)
      with a show False ..
    qed
    with a show ?thesis by simp
  next
    case False
    with gm have a: "\<not> flt ?G m" by simp
    have "\<not> flt ?G x"
    proof
      assume g: "flt ?G x"
      have "flt m x"
      proof (rule ccontr)
        assume nmx: "\<not> flt m x"
        from flt_chain [OF Gn xn mn g nmx] a show False by simp
      qed
      with False show False ..
    qed
    with a show ?thesis by simp
  qed
  with mem high show ?case by auto
qed

lemma to_double_nonneg:
  assumes "0 \<le> x"
  shows "to_double x = PInf \<or> (\<exists>y. 0 \<le> y \<and> to_double x = Finite y)"
proof (cases "x = 0")
  case True
  then show ?thesis by (simp add: to_double_zero)
next
  case False
  define e where "e = max (exponent x - 52) (- 1074)"
  define Y where "Y = of_int (round_half_even (\<bar>x\<bar> / 2 powi e)) * (2::real) powi e"
  have "0 \<le> \<bar>x\<bar> / 2 powi e" by simp
  then have "0 \<le> round_half_even (\<bar>x\<bar> / 2 powi e)"
    by (rule round_half_even_nonneg)
  then have "0 \<le> Y" by (simp add: Y_def)
  with to_double_unfold [OF False e_def Y_def] assms show ?thesis
    by simp
qed

lemma to_double_eval:
  assumes "x \<noteq> 0" and "exponent x = E" and "e = max (E - 52) (- 1074)"
    and "round_half_even (\<bar>x\<bar> / 2 powi e) = m" and "Y = of_int m * 2 powi e"
    and "Y \<le> 2 ^ 53"
  shows "to_double x = Finite (if x < 0 then - Y else Y)"
proof -
  have e: "e = max (exponent x - 52) (- 1074)"
    using assms(2,3) by simp
  have Y: "Y = of_int (round_half_even (\<bar>x\<bar> / 2 powi e)) * 2 powi e"
    using assms(4,5) by simp
  from assms(6) have "Y < 2 ^ 1024" by (rule small_lt_huge)
  with to_double_unfold [OF assms(1) e Y] show ?thesis
    by simp
qed

lemma double_tenth: "to_double (1 / 10) = Finite (3602879701896397 / 2 ^ 55)"
proof -
  have "to_double (1 / 10) =
          Finite (if (1 / 10 :: real) < 0 then - (3602879701896397 / 2 ^ 55) else 3602879701896397 / 2 ^ 55)"
    by (rule to_double_eval [where E = "- 4" and e = "- 56" and m = 7205759403792794])
       (simp_all add: exponent_def bit_length.simps round_half_even_def Let_def power_int_minus)
  then show ?thesis by simp
qed

lemma double_twentieth: "to_double (1 / 20) = Finite (3602879701896397 / 2 ^ 56)"
proof -
  have "to_double (1 / 20) =
          Finite (if (1 / 20 :: real) < 0 then - (3602879701896397 / 2 ^ 56) else 3602879701896397 / 2 ^ 56)"
    by (rule to_double_eval [where E = "- 5" and e = "- 57" and m = 7205759403792794])
       (simp_all add: exponent_def bit_length.simps round_half_even_def Let_def power_int_minus)
  then show ?thesis by simp
qed

lemma double_below: "to_double (- (3 / 4) - 3602879701896397 / 2 ^ 55) = Finite (- (7656119366529843 / 2 ^ 53))"
proof -
  have "to_double (- (3 / 4) - 3602879701896397 / 2 ^ 55) =
          Finite (if (- (3 / 4) - 3602879701896397 / 2 ^ 55 :: real) < 0 then - (7656119366529843 / 2 ^ 53) else 7656119366529843 / 2 ^ 53)"
    by (rule to_double_eval [where E = "- 1" and e = "- 53" and m = 7656119366529843])
       (simp_all add: exponent_def bit_length.simps round_half_even_def Let_def power_int_minus)
  then show ?thesis by simp
qed

lemma double_floor_below: "to_double (- 1 - 3602879701896397 / 2 ^ 56) = Finite (- (4728779608739021 / 2 ^ 52))"
proof -
  have "to_double (- 1 - 3602879701896397 / 2 ^ 56) =
          Finite (if (- 1 - 3602879701896397 / 2 ^ 56 :: real) < 0 then - (4728779608739021 / 2 ^ 52) else 4728779608739021 / 2 ^ 52)"
    by (rule to_double_eval [where E = "0" and e = "- 52" and m = 4728779608739021])
       (simp_all add: exponent_def bit_length.simps round_half_even_def Let_def power_int_minus)
  then show ?thesis by simp
qed

lemma double_above: "to_double (3 / 4 + 3602879701896397 / 2 ^ 55) = Finite (7656119366529843 / 2 ^ 53)"
proof -
  have "to_double (3 / 4 + 3602879701896397 / 2 ^ 55) =
          Finite (if (3 / 4 + 3602879701896397 / 2 ^ 55 :: real) < 0 then - (7656119366529843 / 2 ^ 53) else 7656119366529843 / 2 ^ 53)"
    by (rule to_double_eval [where E = "- 1" and e = "- 53" and m = 7656119366529843])
       (simp_all add: exponent_def bit_length.simps round_half_even_def Let_def power_int_minus)
  then show ?thesis by simp
qed

lemma double_ceil_above: "to_double (1 + 3602879701896397 / 2 ^ 56) = Finite (4728779608739021 / 2 ^ 52)"
proof -
  have "to_double (1 + 3602879701896397 / 2 ^ 56) =
          Finite (if (1 + 3602879701896397 / 2 ^ 56 :: real) < 0 then - (4728779608739021 / 2 ^ 52) else 4728779608739021 / 2 ^ 52)"
    by (rule to_double_eval [where E = "0" and e = "- 52" and m = 4728779608739021])
       (simp_all add: exponent_def bit_length.simps round_half_even_def Let_def power_int_minus)
  then show ?thesis by simp
qed

lemma double_quarter: "to_double (1 / 4) = Finite (1 / 4)"
proof -
  have "to_double (1 / 4) =
          Finite (if (1 / 4 :: real) < 0 then - (1 / 4) else 1 / 4)"
    by (rule to_double_eval [where E = "- 2" and e = "- 54" and m = 4503599627370496])
       (simp_all add: exponent_def bit_length.simps round_half_even_def Let_def power_int_minus)
  then show ?thesis by simp
qed

lemma double_three_quarters: "to_double (3 / 4) = Finite (3 / 4)"
proof -
  have "to_double (3 / 4) =
          Finite (if (3 / 4 :: real) < 0 then - (3 / 4) else 3 / 4)"
    by (rule to_double_eval [where E = "- 1" and e = "- 53" and m = 6755399441055744])
       (simp_all add: exponent_def bit_length.simps round_half_even_def Let_def power_int_minus)
  then show ?thesis by simp
qed

lemma double_minus_three_quarters: "to_double (- (3 / 4)) = Finite (- (3 / 4))"
proof -
  have "to_double (- (3 / 4)) =
          Finite (if (- (3 / 4) :: real) < 0 then - (3 / 4) else 3 / 4)"
    by (rule to_double_eval [where E = "- 1" and e = "- 53" and m = 6755399441055744])
       (simp_all add: exponent_def bit_length.simps round_half_even_def Let_def power_int_minus)
  then show ?thesis by simp
qed

lemma np_min_spec:
  assumes "xs \<noteq> []"
  shows "\<exists>v. np_min xs = Inr v \<and>
             (if NaN \<in> set xs then v = NaN
              else v \<in> set xs \<and> (\<forall>x \<in> set xs. \<not> flt x v))"
proof -
  from assms obtain x rest where xs: "xs = x # rest" by (cases xs) auto
  show ?thesis
  proof (cases "NaN \<in> set xs")
    case True
    then show ?thesis by (simp add: np_min_def xs)
  next
    case False
    then have nn: "NaN \<notin> set (x # rest)" by (simp add: xs)
    from least_props [OF nn] False show ?thesis
      by (simp add: np_min_def xs)
  qed
qed

lemma np_max_spec:
  assumes "xs \<noteq> []"
  shows "\<exists>v. np_max xs = Inr v \<and>
             (if NaN \<in> set xs then v = NaN
              else v \<in> set xs \<and> (\<forall>x \<in> set xs. \<not> flt v x))"
proof -
  from assms obtain x rest where xs: "xs = x # rest" by (cases xs) auto
  show ?thesis
  proof (cases "NaN \<in> set xs")
    case True
    then show ?thesis by (simp add: np_max_def xs)
  next
    case False
    then have nn: "NaN \<notin> set (x # rest)" by (simp add: xs)
    from greatest_props [OF nn] False show ?thesis
      by (simp add: np_max_def xs)
  qed
qed

lemma lower_limit_spec:
  assumes "\<And>x. v = Finite x \<Longrightarrow> \<exists>r. to_double r = Finite x"
  shows "lower_limit v =
           (if v = NInf then Inl OverflowError
            else Inr (case v of
                        Finite x \<Rightarrow>
                          if x < 0
                          then pymax (fsub (Finite x) (to_double 0.1))
                                 (fsub (Finite (of_int \<lfloor>x\<rfloor>)) (to_double 0.05))
                          else Finite 0
                      | _ \<Rightarrow> Finite 0))"
proof (cases v)
  case (Finite x)
  from assms [OF Finite] obtain r where r: "to_double r = Finite x" ..
  have "int_to_float \<lfloor>x\<rfloor> = Inr (Finite (of_int \<lfloor>x\<rfloor>))"
    by (rule int_to_float_exact [OF r]) simp
  then show ?thesis
    by (simp add: lower_limit_def Finite)
qed (simp_all add: lower_limit_def)

lemma upper_limit_spec:
  assumes "\<And>x. v = Finite x \<Longrightarrow> \<exists>r. to_double r = Finite x"
  shows "upper_limit v =
           (if v = PInf then Inl OverflowError
            else Inr (case v of
                        Finite x \<Rightarrow>
                          if 0 < x
                          then pymin (fadd (Finite x) (to_double 0.1))
                                 (fadd (Finite (of_int \<lceil>x\<rceil>)) (to_double 0.05))
                          else Finite 0
                      | _ \<Rightarrow> Finite 0))"
proof (cases v)
  case (Finite x)
  from assms [OF Finite] obtain r where r: "to_double r = Finite x" ..
  have "int_to_float \<lceil>x\<rceil> = Inr (Finite (of_int \<lceil>x\<rceil>))"
    by (rule int_to_float_exact [OF r]) simp
  then show ?thesis
    by (simp add: upper_limit_def Finite)
qed (simp_all add: upper_limit_def)

lemma negative_minus_nonneg:
  assumes "x < 0" and "0 \<le> c"
  shows "\<not> flt (Finite 0) (fsub (Finite x) (to_double c))"
proof -
  from to_double_nonneg [OF assms(2)]
  consider "to_double c = PInf" | y where "0 \<le> y" "to_double c = Finite y" by blast
  then show ?thesis
  proof cases
    case 1
    then show ?thesis by (simp add: fsub_def)
  next
    case 2
    with assms(1) have "x - y < 0" by simp
    from to_double_negative [OF this] 2 show ?thesis
      by (auto simp: fsub_def)
  qed
qed

lemma lower_bound_nonpositive:
  "\<not> flt (Finite 0)
       (case v of
          Finite x \<Rightarrow>
            if x < 0
            then pymax (fsub (Finite x) (to_double 0.1))
                   (fsub (Finite (of_int \<lfloor>x\<rfloor>)) (to_double 0.05))
            else Finite 0
        | _ \<Rightarrow> Finite 0)"
proof (cases v)
  case (Finite x)
  show ?thesis
  proof (cases "x < 0")
    case True
    then have "of_int \<lfloor>x\<rfloor> < (0::real)" by linarith
    from negative_minus_nonneg [OF this, of "0.05"] negative_minus_nonneg [OF True, of "0.1"]
    show ?thesis
      by (simp add: Finite True pymax_def)
  next
    case False
    then show ?thesis by (simp add: Finite)
  qed
qed simp_all

lemma ylimits_loop_result:
  "ylimits_loop df ms yl0 = Inr yl \<Longrightarrow>
     (\<forall>m \<in> set ms. ylimits_of_metric df m = Inr (the (yl m)) \<and> yl m \<noteq> None) \<and>
     (\<forall>m. m \<notin> set ms \<longrightarrow> yl m = yl0 m)"
proof (induction ms arbitrary: yl0)
  case Nil
  then show ?case by simp
next
  case (Cons a ms)
  from Cons.prems obtain lim where lim: "ylimits_of_metric df a = Inr lim"
    and rest: "ylimits_loop df ms (yl0(a \<mapsto> lim)) = Inr yl"
    by (cases "ylimits_of_metric df a") simp_all
  from Cons.IH [OF rest] lim show ?case
    by (cases "a \<in> set ms") auto
qed

lemma ylimits_loop_returns:
  "(\<exists>yl. ylimits_loop df ms yl0 = Inr yl) \<longleftrightarrow>
     (\<forall>m \<in> set ms. \<exists>lim. ylimits_of_metric df m = Inr lim)"
proof (induction ms arbitrary: yl0)
  case Nil
  then show ?case by simp
next
  case (Cons a ms)
  show ?case
  proof (cases "ylimits_of_metric df a")
    case (Inl e)
    then show ?thesis by simp
  next
    case (Inr lim)
    have "(\<exists>yl. ylimits_loop df (a # ms) yl0 = Inr yl)
            \<longleftrightarrow> (\<exists>yl. ylimits_loop df ms (yl0(a \<mapsto> lim)) = Inr yl)"
      using Inr by simp
    also have "\<dots> \<longleftrightarrow> (\<forall>m \<in> set ms. \<exists>lim. ylimits_of_metric df m = Inr lim)"
      by (rule Cons.IH)
    also have "\<dots> \<longleftrightarrow> (\<forall>m \<in> set (a # ms). \<exists>lim. ylimits_of_metric df m = Inr lim)"
      using Inr by simp
    finally show ?thesis .
  qed
qed




lemma to_double_eval_to:
  assumes "x \<noteq> 0" and "exponent x = E" and "e = max (E - 52) (- 1074)"
    and "round_half_even (\<bar>x\<bar> / 2 powi e) = m"
    and "r = (if x < 0 then - (of_int m * 2 powi e) else of_int m * 2 powi e)"
    and "of_int m * 2 powi e \<le> (2::real) ^ 53"
  shows "to_double x = Finite r"
  unfolding assms(5)
  by (rule to_double_eval [OF assms(1,2,3,4) refl assms(6)])

lemma example_lower_a:
  "fsub (Finite (- (3 / 4))) (to_double 0.1) = Finite (- (7656119366529843 / 2 ^ 53))"
  unfolding double_tenth fsub_def fneg.simps fadd.simps
  by (rule to_double_eval_to [where E = "- 1" and e = "- 53" and m = 7656119366529843])
     (simp_all add: exponent_def bit_length.simps round_half_even_def Let_def power_int_minus)

lemma example_lower_b:
  "fsub (Finite (- 1)) (to_double (1 / 20)) = Finite (- (4728779608739021 / 2 ^ 52))"
  unfolding double_twentieth fsub_def fneg.simps fadd.simps
  by (rule to_double_eval_to [where E = "0" and e = "- 52" and m = 4728779608739021])
     (simp_all add: exponent_def bit_length.simps round_half_even_def Let_def power_int_minus)

lemma example_upper_a:
  "fadd (Finite (3 / 4)) (to_double 0.1) = Finite (7656119366529843 / 2 ^ 53)"
  unfolding double_tenth fadd.simps
  by (rule to_double_eval_to [where E = "- 1" and e = "- 53" and m = 7656119366529843])
     (simp_all add: exponent_def bit_length.simps round_half_even_def Let_def power_int_minus)

lemma example_upper_b:
  "fadd (Finite 1) (to_double (1 / 20)) = Finite (4728779608739021 / 2 ^ 52)"
  unfolding double_twentieth fadd.simps
  by (rule to_double_eval_to [where E = "0" and e = "- 52" and m = 4728779608739021])
     (simp_all add: exponent_def bit_length.simps round_half_even_def Let_def power_int_minus)

lemma example_lows:
  "map (\<lambda>r. fsub (val r) (train_score_std r))
     [r \<leftarrow> example_long_df. variable r = ''train_score_mean'' \<and> metric r = ''pearson'']
   @ map (\<lambda>r. fsub (val r) (test_score_std r))
       [r \<leftarrow> example_long_df. variable r = ''test_score_mean'' \<and> metric r = ''pearson'']
   = [Finite (1 / 4), Finite (- (3 / 4))]"
  by (simp add: example_long_df_def fsub_def double_quarter double_minus_three_quarters)

lemma example_highs:
  "map (\<lambda>r. fadd (val r) (train_score_std r))
     [r \<leftarrow> example_long_df. variable r = ''train_score_mean'' \<and> metric r = ''pearson'']
   @ map (\<lambda>r. fadd (val r) (test_score_std r))
       [r \<leftarrow> example_long_df. variable r = ''test_score_mean'' \<and> metric r = ''pearson'']
   = [Finite (3 / 4), Finite (1 / 4)]"
  by (simp add: example_long_df_def double_quarter double_three_quarters)




text \<open>An infinite score makes \<open>math.ceil\<close> raise, and with it the whole computation.\<close>

lemma infinite_score_raises:
  "ylimits_of_metric infinite_long_df ''pearson'' = Inl OverflowError"
  by (simp add: ylimits_of_metric_def lower_values_def upper_values_def df_train_def df_test_def
        infinite_long_df_def np_min_def np_max_def fsub_def lower_limit_def upper_limit_def)

text \<open>
  The rounding at work: the doubles nearest to \<open>-1.2\<close> and \<open>2.2\<close> add up to the double
  after 1, and adding the double nearest to \<open>0.1\<close> gives \<open>1.1000000000000003\<close>.
\<close>

lemma rounded_sum_example:
  "fadd (fadd (to_double (- 1.2)) (to_double 2.2)) (to_double 0.1)
     = Finite (4953959590107547 / 2 ^ 52)"
proof -
  have a: "to_double (- 1.2) = Finite (- (5404319552844595 / 2 ^ 52))"
    by (rule to_double_eval_to [where E = "0" and e = "- 52" and m = 5404319552844595])
       (simp_all add: exponent_def bit_length.simps round_half_even_def Let_def power_int_minus)
  have b: "to_double 2.2 = Finite (2476979795053773 / 2 ^ 50)"
    by (rule to_double_eval_to [where E = "1" and e = "- 51" and m = 4953959590107546])
       (simp_all add: exponent_def bit_length.simps round_half_even_def Let_def power_int_minus)
  have c: "to_double (- (5404319552844595 / 2 ^ 52) + 2476979795053773 / 2 ^ 50)
             = Finite (4503599627370497 / 2 ^ 52)"
    by (rule to_double_eval_to [where E = "0" and e = "- 52" and m = 4503599627370497])
       (simp_all add: exponent_def bit_length.simps round_half_even_def Let_def power_int_minus)
  have d: "to_double (4503599627370497 / 2 ^ 52 + 3602879701896397 / 2 ^ 55)
             = Finite (4953959590107547 / 2 ^ 52)"
    by (rule to_double_eval_to [where E = "0" and e = "- 52" and m = 4953959590107547])
       (simp_all add: exponent_def bit_length.simps round_half_even_def Let_def power_int_minus)
  show ?thesis
    unfolding a b double_tenth fadd.simps c d ..
qed

section \<open>The score frame and the time frame\<close>

lemma score_columns_set:
  "set (score_columns cs) =
     set cs - {''train_set_name'', ''fit_time_mean'', ''fit_time_std'',
               ''scikit_learn_version'', ''version''}"
  by (auto simp: score_columns_def)

lemma time_columns_set:
  "set (time_columns cs) =
     set cs - {''train_set_name'', ''train_score_mean'', ''train_score_std'',
               ''test_score_mean'', ''test_score_std'', ''scikit_learn_version'', ''version''}"
  by (auto simp: time_columns_def)

lemma take_columns_known:
  "set cols \<subseteq> set (columns df) \<Longrightarrow>
     take_columns cols df =
       Inr \<lparr>columns = cols,
            frame_rows = map (\<lambda>r. map (\<lambda>c. the (map_of (zip (columns df) r) c)) cols)
                           (frame_rows df)\<rparr>"
proof -
  assume "set cols \<subseteq> set (columns df)"
  then have "[c \<leftarrow> cols. c \<notin> set (columns df)] = []"
    by (auto simp: filter_empty_conv)
  then show ?thesis
    by (simp add: take_columns_def)
qed

text \<open>
  C9 (as amended). Taking the score frame and the time frame never raises. The score
  frame has the columns of the wide table, in their order, except
  \<open>train_set_name\<close>, the two fit-time fields and the two version fields; the time frame
  has them except \<open>train_set_name\<close>, the four score fields and the two version fields.
\<close>

theorem frame_columns_kept:
  "(\<exists>sc. df_score df = Inr sc \<and> columns sc = score_columns (columns df)) \<and>
   (\<exists>tm. df_time df = Inr tm \<and> columns tm = time_columns (columns df)) \<and>
   subseq (score_columns (columns df)) (columns df) \<and>
   subseq (time_columns (columns df)) (columns df) \<and>
   set (score_columns (columns df)) =
     set (columns df) - {''train_set_name'', ''fit_time_mean'', ''fit_time_std'',
                         ''scikit_learn_version'', ''version''} \<and>
   set (time_columns (columns df)) =
     set (columns df) - {''train_set_name'', ''train_score_mean'', ''train_score_std'',
                         ''test_score_mean'', ''test_score_std'',
                         ''scikit_learn_version'', ''version''}"
proof -
  have s: "set (score_columns (columns df)) \<subseteq> set (columns df)"
    and t: "set (time_columns (columns df)) \<subseteq> set (columns df)"
    by (auto simp: score_columns_def time_columns_def)
  have a: "\<exists>sc. df_score df = Inr sc \<and> columns sc = score_columns (columns df)"
    unfolding df_score_def take_columns_known [OF s] by simp
  have b: "\<exists>tm. df_time df = Inr tm \<and> columns tm = time_columns (columns df)"
    unfolding df_time_def take_columns_known [OF t] by simp
  have c: "subseq (score_columns (columns df)) (columns df)"
    and d: "subseq (time_columns (columns df)) (columns df)"
    by (simp_all add: score_columns_def time_columns_def)
  from a b c d score_columns_set [of "columns df"] time_columns_set [of "columns df"]
  show ?thesis by (intro conjI)
qed

text \<open>
  The claim as stated fails: \<open>train_set_name\<close> is a column of the written table, it is
  neither a fit-time nor a version field, and both frames drop it.
\<close>

theorem train_set_name_dropped_counterexample:
  "''train_set_name'' \<in> set curve_header \<and>
   ''train_set_name'' \<notin> set (score_columns curve_header) \<and>
   ''train_set_name'' \<notin> set (time_columns curve_header)"
  by (simp add: curve_header_def score_columns_def time_columns_def)

section \<open>Melting the score frame\<close>

lemma concat_blocks_length:
  "length (concat (map (\<lambda>v. map (f v) rs) vs)) = length vs * length rs"
  by (induction vs) simp_all

lemma concat_blocks_nth:
  "i < length rs \<Longrightarrow> k < length vs \<Longrightarrow>
     concat (map (\<lambda>v. map (f v) rs) vs) ! (k * length rs + i) = f (vs ! k) (rs ! i)"
proof (induction vs arbitrary: k)
  case Nil
  then show ?case by simp
next
  case (Cons v vs)
  show ?case
  proof (cases k)
    case 0
    with Cons.prems show ?thesis by (simp add: nth_append)
  next
    case (Suc j)
    with Cons.prems have j: "j < length vs" by simp
    have "concat (map (\<lambda>v. map (f v) rs) (v # vs)) ! (Suc j * length rs + i)
            = (map (f v) rs @ concat (map (\<lambda>v. map (f v) rs) vs))
                ! (length (map (f v) rs) + (j * length rs + i))"
      by (simp add: add.assoc)
    also have "\<dots> = concat (map (\<lambda>v. map (f v) rs) vs) ! (j * length rs + i)"
      by (rule nth_append_length_plus)
    also have "\<dots> = f (vs ! j) (rs ! i)"
      by (rule Cons.IH [OF Cons.prems(1) j])
    finally show ?thesis by (simp add: Suc)
  qed
qed

lemma long_row_cells:
  assumes "''variable'' \<notin> set ids" and "''value'' \<notin> set ids"
  shows "map_of (zip (ids @ [''variable'', ''value'']) (map g ids @ [a, b])) c =
           (if c \<in> set ids then Some (g c)
            else if c = ''variable'' then Some a
            else if c = ''value'' then Some b else None)"
proof -
  have "zip (ids @ [''variable'', ''value'']) (map g ids @ [a, b])
          = zip ids (map g ids) @ [(''variable'', a), (''value'', b)]"
    by simp
  then show ?thesis
    using assms by (auto simp: map_of_zip_map map_add_def split: option.splits)
qed

lemma cell_in_row:
  assumes "length r = length cs" and "c \<in> set cs"
  shows "map_of (zip cs r) c = Some (the (map_of (zip cs r) c))"
proof -
  from assms obtain x where "map_of (zip cs r) c = Some x"
    using map_of_zip_is_Some [of cs r c] by auto
  then show ?thesis by simp
qed

lemma score_vars:
  "[c \<leftarrow> score_columns cs.
      c \<notin> set [c \<leftarrow> score_columns cs. c \<notin> set [''train_score_mean'', ''test_score_mean'']]]
     = [c \<leftarrow> cs. c = ''train_score_mean'' \<or> c = ''test_score_mean'']"
  unfolding score_columns_def filter_filter
  by (rule filter_cong) auto

lemma two_score_vars:
  assumes "distinct cs" and "''train_score_mean'' \<in> set cs" and "''test_score_mean'' \<in> set cs"
  shows "length [c \<leftarrow> cs. c = ''train_score_mean'' \<or> c = ''test_score_mean''] = 2"
    and "set [c \<leftarrow> cs. c = ''train_score_mean'' \<or> c = ''test_score_mean'']
           = {''train_score_mean'', ''test_score_mean''}"
proof -
  show s: "set [c \<leftarrow> cs. c = ''train_score_mean'' \<or> c = ''test_score_mean'']
           = {''train_score_mean'', ''test_score_mean''}"
    using assms(2,3) by auto
  have "distinct [c \<leftarrow> cs. c = ''train_score_mean'' \<or> c = ''test_score_mean'']"
    using assms(1) by simp
  then have "length [c \<leftarrow> cs. c = ''train_score_mean'' \<or> c = ''test_score_mean'']
               = card (set [c \<leftarrow> cs. c = ''train_score_mean'' \<or> c = ''test_score_mean''])"
    by (rule distinct_card [symmetric])
  also have "\<dots> = 2"
    unfolding s by simp
  finally show "length [c \<leftarrow> cs. c = ''train_score_mean'' \<or> c = ''test_score_mean''] = 2" .
qed





end
